theory Spec2Isabelle
  imports Main "HOL-Library.Word" "HOL-Library.Log_Nat" "HOL-Library.Monad_Syntax"
begin

unbundle bit_operations_syntax

section \<open>Constants of the allocator (allocator\_internal.h, allocator\_header.h)\<close>

text \<open>
  The embedding follows the C sources: \<open>size_t\<close>, pointers and \<open>unsigned long\<close> are
  \<open>64 word\<close>, \<open>unsigned int\<close> is \<open>32 word\<close>, \<open>unsigned short\<close> is \<open>16 word\<close>,
  the one-byte object header is \<open>8 word\<close>, and a bit-field of \<open>n\<close> bits is an \<open>n word\<close>.
  A result \<open>None\<close> means that the source has no defined result at that input: a loop
  that does not end, a table read outside its bounds, \<open>__builtin_clz\<close> applied to 0, an
  access through a null page-block pointer, or a read of memory that has been unmapped.
\<close>

definition CLASS_SMALL :: int where "CLASS_SMALL = 0"
definition CLASS_LARGE :: int where "CLASS_LARGE = 1"
definition CLASS_NUM :: nat where "CLASS_NUM = 64"
definition CLASS_PAGES_NUM :: nat where "CLASS_PAGES_NUM = 3"
definition PAGE_BITS :: nat where "PAGE_BITS = 12"
definition PAGE_SZ :: nat where "PAGE_SZ = 2 ^ PAGE_BITS"
definition PAGE_MULTIPLIER :: nat where "PAGE_MULTIPLIER = 3"
definition SMALL_ALLOCATION_LIMIT :: nat where "SMALL_ALLOCATION_LIMIT = PAGE_SZ div 2"
definition DEFAULT_ALLIGN :: nat where "DEFAULT_ALLIGN = 16"
definition LARGE_HEADER_SIZE :: nat where "LARGE_HEADER_SIZE = 16"

text \<open>The class sizes, each including the one-byte object header (allocator.cpp, \<open>class_sizes\<close>).\<close>

definition class_sizes :: "nat list" where
  "class_sizes =
    [16, 32, 48, 64, 80, 96, 112, 128,
     144, 160, 176, 192, 208, 224, 240, 256,
     272, 288, 304, 320, 336, 352, 368, 384,
     400, 416, 432, 448, 464, 480, 496, 512,
     544, 576, 608, 640, 672, 704, 736, 768,
     800, 832, 864, 896, 928, 960, 992, 1024,
     1088, 1152, 1216, 1280, 1344, 1408, 1472, 1536,
     1600, 1664, 1728, 1792, 1856, 1920, 1984, 2048]"

section \<open>The size-class decoder\<close>

text \<open>\<open>__builtin_clz\<close> on an \<open>unsigned int\<close>: the number of leading zero bits.\<close>

fun clz_from :: "nat \<Rightarrow> 32 word \<Rightarrow> nat" where
  "clz_from 0 x = 0"
| "clz_from (Suc n) x = (if bit x n then 0 else Suc (clz_from n x))"

definition builtin_clz :: "32 word \<Rightarrow> nat" where
  "builtin_clz x = clz_from 32 x"

text \<open>
  \<open>LOG2(x) = (unsigned int)(8 * sizeof(unsigned int) - __builtin_clz(x) - 1)\<close>; the
  built-in is undefined at 0.
\<close>

definition LOG2 :: "32 word \<Rightarrow> 32 word option" where
  "LOG2 x = (if x = 0 then None else Some (word_of_nat (8 * 4 - builtin_clz x - 1)))"

text \<open>
  \<open>class_size_decode(size, &pageblock_size)\<close> returns the class index and writes the
  page-block size in pages; the pair is (index, pages). \<open>range_offset\<close> has three
  entries, and an index beyond them has no defined result.
\<close>

definition class_size_decode :: "64 word \<Rightarrow> (32 word \<times> 32 word) option" where
  "class_size_decode size' =
    (let range_shift = 8 :: nat; range_mult = 512 :: 32 word; base_shift = 4 :: nat;
         range_offset = [0, 32, 48] :: 32 word list
     in case LOG2 (ucast (drop_bit range_shift size' OR 1)) of
          None \<Rightarrow> None
        | Some range_idx \<Rightarrow>
            (let subrange_idx =
                   (ucast (drop_bit (base_shift + unat range_idx)
                              (size' - ucast (range_mult * range_idx))) :: 32 word);
                 pageblock_size = (push_bit (unat range_idx + PAGE_MULTIPLIER) 1 :: 32 word)
             in if unat range_idx < length range_offset
                then Some (range_offset ! unat range_idx + subrange_idx, pageblock_size)
                else None))"

text \<open>
  The decoder as the specification words it, on natural numbers:
  range = floor (log2 ((s >> 8) | 1)), subrange = (s - range * 512) >> (4 + range),
  class index = {0, 32, 48}[range] + subrange, page-block size = 2 ^ (range + 3) pages.
\<close>

definition spec_range :: "nat \<Rightarrow> nat" where
  "spec_range s = floorlog 2 ((s div 2 ^ 8) OR 1) - 1"

definition spec_subrange :: "nat \<Rightarrow> nat" where
  "spec_subrange s = (s - spec_range s * 512) div 2 ^ (4 + spec_range s)"

definition spec_class_index :: "nat \<Rightarrow> nat" where
  "spec_class_index s = [0, 32, 48] ! spec_range s + spec_subrange s"

definition spec_pageblock_pages :: "nat \<Rightarrow> nat" where
  "spec_pageblock_pages s = 2 ^ (spec_range s + 3)"

text \<open>The documented step between consecutive class sizes, by range: 16, 32, 64.\<close>

definition spec_step :: "nat \<Rightarrow> nat" where
  "spec_step r = [16, 32, 64] ! r"

text \<open>The range a class index belongs to: classes 0..31, 32..47, 48..63.\<close>

definition range_of_class :: "nat \<Rightarrow> nat" where
  "range_of_class c = (if c < 32 then 0 else if c < 48 then 1 else 2)"

section \<open>Bit-fields packed in a 64-bit word (allocator\_internal.h, allocator\_list.h)\<close>

text \<open>
  \<open>rfid\<close>, the synchronisation word of a page-block: \<open>count\<close> in bits 0..15,
  \<open>remotely_freed\<close> in bits 16..39, \<open>thread_id\<close> in bits 40..63. The union
  \<open>rfid_un\<close> reads the same eight bytes as \<open>both\<close>.
\<close>

record rfid =
  rf_count :: "16 word"
  remotely_freed :: "24 word"
  rf_thread_id :: "24 word"

definition rfid_both :: "rfid \<Rightarrow> 64 word" where
  "rfid_both r =
     ucast (rf_count r) OR push_bit 16 (ucast (remotely_freed r)) OR push_bit 40 (ucast (rf_thread_id r))"

definition rfid_of :: "64 word \<Rightarrow> rfid" where
  "rfid_of w =
     \<lparr>rf_count = ucast w, remotely_freed = ucast (drop_bit 16 w), rf_thread_id = ucast (drop_bit 40 w)\<rparr>"

definition ORPHAN_ID :: "24 word" where
  "ORPHAN_ID = push_bit 24 1 - 1"

text \<open>
  \<open>dq_ct_node\<close>, the head of a counting stack: \<open>nxt\<close> in bits 0..39 (a page address
  shifted right by \<open>PAGE_BITS\<close>), \<open>count\<close> in bits 40..51, \<open>state\<close> in bits 52..63.
\<close>

record dq_ct_node =
  nxt :: "40 word"
  count :: "12 word"
  state :: "12 word"

definition dq_both :: "dq_ct_node \<Rightarrow> 64 word" where
  "dq_both d = ucast (nxt d) OR push_bit 40 (ucast (count d)) OR push_bit 52 (ucast (state d))"

definition dq_of :: "64 word \<Rightarrow> dq_ct_node" where
  "dq_of w = \<lparr>nxt = ucast w, count = ucast (drop_bit 40 w), state = ucast (drop_bit 52 w)\<rparr>"

definition COUNT_MAX :: "12 word" where
  "COUNT_MAX = push_bit 12 1 - 1"

definition PTR_MASK :: "64 word" where
  "PTR_MASK = push_bit (64 - 12) 1 - 1"

definition SET_PTR :: "64 word \<Rightarrow> 40 word" where
  "SET_PTR x = ucast (drop_bit PAGE_BITS x AND PTR_MASK)"

definition GET_PTR :: "40 word \<Rightarrow> 64 word" where
  "GET_PTR x = push_bit PAGE_BITS (ucast x OR NOT PTR_MASK)"

section \<open>The state: page-block headers, bytes, thread data, operating system\<close>

text \<open>
  A page-block header (\<open>page_t\<close>) is kept in a store of its own, keyed by the address of
  the block; the bytes of the objects (headers, payloads, the links of freed objects) are
  in \<open>mem\<close>. The first eight bytes of a block are its \<open>next\<close> pointer, which the counting
  stacks overwrite with a packed \<open>dq_ct_node\<close> while the block is cached.
\<close>

record page_t =
  next_pg :: "64 word"
  prev_pg :: "64 word"
  page_num :: "16 word"
  object_size :: "16 word"
  allocated_objects :: "32 word"
  unallocated_off :: "32 word"
  freed :: "32 word"
  sync :: rfid

record heap_t =
  head :: "64 word"
  tail :: "64 word"

record thread_private_t =
  thread_id :: "32 word"
  private_heap :: "nat \<Rightarrow> heap_t"
  top' :: "nat \<Rightarrow> dq_ct_node"

text \<open>
  The operating system is outside the allocator. Its model hands out fresh page-aligned
  regions from \<open>os_brk\<close> upwards, refuses a request of length 0 or one that does not fit
  below \<open>os_limit\<close>, never hands out an address twice, and records what it is asked to unmap
  (\<open>os_unmapped\<close>: start address and length in bytes). A byte of an unmapped region is
  not readable any more: the process faults there, so a read of it has no defined result.
\<close>

record alloc_state =
  pages :: "64 word \<Rightarrow> page_t"
  mem :: "64 word \<Rightarrow> 8 word"
  thread_data :: thread_private_t
  global_freeheap :: "nat \<Rightarrow> dq_ct_node"
  global_thread_id :: "32 word"
  os_brk :: "64 word"
  os_limit :: "64 word"
  os_unmapped :: "(64 word \<times> 64 word) list"

datatype abort = Abort string

definition unmapped :: "alloc_state \<Rightarrow> 64 word \<Rightarrow> bool" where
  "unmapped s a =
     list_ex (\<lambda>(b, len). uint b \<le> uint a \<and> uint a < uint b + uint len) (os_unmapped s)"

subsection \<open>Little-endian loads and stores\<close>

definition load32 :: "(64 word \<Rightarrow> 8 word) \<Rightarrow> 64 word \<Rightarrow> 32 word" where
  "load32 m a =
     ucast (m a) OR push_bit 8 (ucast (m (a + 1))) OR push_bit 16 (ucast (m (a + 2)))
       OR push_bit 24 (ucast (m (a + 3)))"

definition store32 :: "(64 word \<Rightarrow> 8 word) \<Rightarrow> 64 word \<Rightarrow> 32 word \<Rightarrow> (64 word \<Rightarrow> 8 word)" where
  "store32 m a v =
     m(a := ucast v, a + 1 := ucast (drop_bit 8 v), a + 2 := ucast (drop_bit 16 v),
       a + 3 := ucast (drop_bit 24 v))"

definition load64 :: "(64 word \<Rightarrow> 8 word) \<Rightarrow> 64 word \<Rightarrow> 64 word" where
  "load64 m a = ucast (load32 m a) OR push_bit 32 (ucast (load32 m (a + 4)))"

definition store64 :: "(64 word \<Rightarrow> 8 word) \<Rightarrow> 64 word \<Rightarrow> 64 word \<Rightarrow> (64 word \<Rightarrow> 8 word)" where
  "store64 m a v = store32 (store32 m a (ucast v)) (a + 4) (ucast (drop_bit 32 v))"

text \<open>\<open>memcpy(dst, src, n)\<close> for regions that do not overlap.\<close>

definition memcpy :: "(64 word \<Rightarrow> 8 word) \<Rightarrow> 64 word \<Rightarrow> 64 word \<Rightarrow> 64 word \<Rightarrow> (64 word \<Rightarrow> 8 word)" where
  "memcpy m dst src n = (\<lambda>a. if a - dst < n then m (src + (a - dst)) else m a)"

section \<open>Atomic primitives (atomic.h)\<close>

text \<open>
  \<open>ATOMIC_CAS(ptr, new_val, old_val)\<close> on a 64-bit word whose current content is
  \<open>cur\<close>: the result is the success flag and the content afterwards.
\<close>

definition ATOMIC_CAS :: "64 word \<Rightarrow> 64 word \<Rightarrow> 64 word \<Rightarrow> bool \<times> 64 word" where
  "ATOMIC_CAS cur new_val old_val = (if cur = old_val then (True, new_val) else (False, cur))"

section \<open>Counting stacks and page-block lists (allocator\_list.h)\<close>

definition stack_is_empty :: "dq_ct_node \<Rightarrow> bool" where
  "stack_is_empty stack_top = (count stack_top = 0)"

definition stack_is_full :: "dq_ct_node \<Rightarrow> bool" where
  "stack_is_full stack_top = (count stack_top = COUNT_MAX)"

text \<open>Writing a \<open>dq_ct_node\<close> over the first eight bytes of a page-block, and reading it.\<close>

definition write_node :: "64 word \<Rightarrow> dq_ct_node \<Rightarrow> alloc_state \<Rightarrow> alloc_state" where
  "write_node page d s = s\<lparr>pages := (pages s)(page := (pages s page)\<lparr>next_pg := dq_both d\<rparr>)\<rparr>"

definition read_node :: "alloc_state \<Rightarrow> 64 word \<Rightarrow> dq_ct_node" where
  "read_node s page = dq_of (next_pg (pages s page))"

text \<open>
  The thread-local stacks \<open>thread_data.top[i]\<close>: \<open>stack_insert\<close> and \<open>stack_remove\<close>.
  \<open>stack_remove\<close> reads \<open>page->nxt\<close> of the block that the top names without testing
  the pointer: at a null pointer it has no defined result.
\<close>

definition stack_insert :: "nat \<Rightarrow> 64 word \<Rightarrow> alloc_state \<Rightarrow> bool \<times> alloc_state" where
  "stack_insert i page s =
     (let stack_top = top' (thread_data s) i in
      if count stack_top = COUNT_MAX then (False, s)
      else
        let s1 = write_node page stack_top s;
            stack_top' = stack_top\<lparr>count := count stack_top + 1, nxt := SET_PTR page\<rparr>
        in (True, s1\<lparr>thread_data := (thread_data s1)\<lparr>top' := (top' (thread_data s1))(i := stack_top')\<rparr>\<rparr>))"

definition stack_remove :: "nat \<Rightarrow> alloc_state \<Rightarrow> (64 word \<times> alloc_state) option" where
  "stack_remove i s =
     (let stack_top = top' (thread_data s) i in
      if count stack_top = 0 then Some (0, s)
      else
        let page = GET_PTR (nxt stack_top) in
        if page = 0 then None
        else
          let stack_top' = stack_top\<lparr>nxt := nxt (read_node s page), count := count stack_top - 1\<rparr>
          in Some (page, s\<lparr>thread_data := (thread_data s)\<lparr>top' := (top' (thread_data s))(i := stack_top')\<rparr>\<rparr>))"

text \<open>
  The atomic stacks \<open>global_freeheap[i]\<close>. The head that one round of the loop of
  \<open>stack_insert_atomic\<close> and of \<open>stack_remove_atomic\<close> offers to the compare-and-swap:
\<close>

definition stack_insert_atomic_new :: "dq_ct_node \<Rightarrow> 64 word \<Rightarrow> dq_ct_node" where
  "stack_insert_atomic_new old_head page =
     \<lparr>nxt = SET_PTR page, count = count old_head + 1, state = state old_head + 1\<rparr>"

definition stack_remove_atomic_new :: "alloc_state \<Rightarrow> dq_ct_node \<Rightarrow> dq_ct_node" where
  "stack_remove_atomic_new s old_head =
     \<lparr>nxt = nxt (read_node s (GET_PTR (nxt old_head))), count = count old_head - 1,
      state = state old_head + 1\<rparr>"

text \<open>
  The loops retry until the compare-and-swap succeeds. Other threads are a schedule
  \<open>env\<close>: its first element is the head that they have left in the stack between this
  thread's read and its compare-and-swap; with the empty schedule nobody interferes and
  the compare-and-swap finds the head that was read.
\<close>

fun stack_insert_atomic_sched ::
  "dq_ct_node list \<Rightarrow> nat \<Rightarrow> 64 word \<Rightarrow> alloc_state \<Rightarrow> bool \<times> alloc_state" where
  "stack_insert_atomic_sched env i page s =
     (let old_head = global_freeheap s i in
      if count old_head = COUNT_MAX then (False, s)
      else
        let s1 = write_node page old_head s;
            new_head = stack_insert_atomic_new old_head page;
            expected = next_pg (pages s1 page)
        in case env of
             [] \<Rightarrow>
               let (ok, w) = ATOMIC_CAS (dq_both old_head) (dq_both new_head) expected
               in (True, s1\<lparr>global_freeheap := (global_freeheap s1)(i := dq_of w)\<rparr>)
           | e # env' \<Rightarrow>
               let (ok, w) = ATOMIC_CAS (dq_both e) (dq_both new_head) expected;
                   s2 = s1\<lparr>global_freeheap := (global_freeheap s1)(i := dq_of w)\<rparr>
               in if ok then (True, s2) else stack_insert_atomic_sched env' i page s2)"

fun stack_remove_atomic_sched ::
  "dq_ct_node list \<Rightarrow> nat \<Rightarrow> alloc_state \<Rightarrow> 64 word \<times> alloc_state" where
  "stack_remove_atomic_sched env i s =
     (let old_head = global_freeheap s i in
      if nxt old_head = 0 then (0, s)
      else
        let next = stack_remove_atomic_new s old_head
        in case env of
             [] \<Rightarrow>
               let (ok, w) = ATOMIC_CAS (dq_both old_head) (dq_both next) (dq_both old_head)
               in (GET_PTR (nxt old_head), s\<lparr>global_freeheap := (global_freeheap s)(i := dq_of w)\<rparr>)
           | e # env' \<Rightarrow>
               let (ok, w) = ATOMIC_CAS (dq_both e) (dq_both next) (dq_both old_head);
                   s2 = s\<lparr>global_freeheap := (global_freeheap s)(i := dq_of w)\<rparr>
               in if ok then (GET_PTR (nxt old_head), s2) else stack_remove_atomic_sched env' i s2)"

definition stack_insert_atomic :: "nat \<Rightarrow> 64 word \<Rightarrow> alloc_state \<Rightarrow> bool \<times> alloc_state" where
  "stack_insert_atomic = stack_insert_atomic_sched []"

definition stack_remove_atomic :: "nat \<Rightarrow> alloc_state \<Rightarrow> 64 word \<times> alloc_state" where
  "stack_remove_atomic = stack_remove_atomic_sched []"

text \<open>The doubly linked list of the page-blocks of class \<open>c\<close>, \<open>private_heap[c]\<close>.\<close>

definition set_heap :: "nat \<Rightarrow> heap_t \<Rightarrow> alloc_state \<Rightarrow> alloc_state" where
  "set_heap c h s =
     s\<lparr>thread_data := (thread_data s)\<lparr>private_heap := (private_heap (thread_data s))(c := h)\<rparr>\<rparr>"

definition set_page :: "64 word \<Rightarrow> (page_t \<Rightarrow> page_t) \<Rightarrow> alloc_state \<Rightarrow> alloc_state" where
  "set_page page f s = s\<lparr>pages := (pages s)(page := f (pages s page))\<rparr>"

definition insert_front_dq :: "nat \<Rightarrow> 64 word \<Rightarrow> alloc_state \<Rightarrow> alloc_state" where
  "insert_front_dq c page s =
     (let h = private_heap (thread_data s) c in
      if head h = 0 then
        set_page page (\<lambda>p. p\<lparr>next_pg := 0, prev_pg := 0\<rparr>) (set_heap c \<lparr>head = page, tail = page\<rparr> s)
      else
        let s1 = set_page page (\<lambda>p. p\<lparr>next_pg := head h\<rparr>) s;
            s2 = set_page (next_pg (pages s1 page)) (\<lambda>p. p\<lparr>prev_pg := page\<rparr>) s1
        in set_heap c (h\<lparr>head := page\<rparr>) s2)"

text \<open>
  \<open>remove_node_dq\<close> (``assuming the page is not the head'') writes through
  \<open>page->prev\<close> and, when the page is not the tail, through \<open>page->next\<close>, without
  testing them: where one of them is null it has no defined result.
\<close>

definition remove_node_dq :: "nat \<Rightarrow> 64 word \<Rightarrow> alloc_state \<Rightarrow> alloc_state option" where
  "remove_node_dq c page s =
     (let h = private_heap (thread_data s) c in
      if prev_pg (pages s page) = 0 then None
      else if page = tail h then
        let s1 = set_page (prev_pg (pages s page)) (\<lambda>p. p\<lparr>next_pg := 0\<rparr>)
                   (set_heap c (h\<lparr>tail := prev_pg (pages s page)\<rparr>) s)
        in Some (set_page page (\<lambda>p. p\<lparr>next_pg := 0, prev_pg := 0\<rparr>) s1)
      else
        let s' = set_page (prev_pg (pages s page)) (\<lambda>p. p\<lparr>next_pg := next_pg (pages s page)\<rparr>) s
        in if next_pg (pages s' page) = 0 then None
           else
             let s1 = set_page (next_pg (pages s' page)) (\<lambda>p. p\<lparr>prev_pg := prev_pg (pages s' page)\<rparr>) s'
             in Some (set_page page (\<lambda>p. p\<lparr>next_pg := 0, prev_pg := 0\<rparr>) s1))"

text \<open>\<open>STACK_PUSH_OBJECT\<close> and \<open>STACK_POP_OBJECT\<close>: the LIFO of freed slots of a page-block.\<close>

definition STACK_PUSH_OBJECT :: "64 word \<Rightarrow> 64 word \<Rightarrow> 32 word \<Rightarrow> alloc_state \<Rightarrow> alloc_state" where
  "STACK_PUSH_OBJECT page obj obj_offset s =
     (let s1 = s\<lparr>mem := store32 (mem s) obj (freed (pages s page))\<rparr>
      in set_page page
           (\<lambda>p. p\<lparr>freed := obj_offset, allocated_objects := allocated_objects p - 1\<rparr>) s1)"

definition STACK_POP_OBJECT :: "64 word \<Rightarrow> alloc_state \<Rightarrow> 64 word \<times> alloc_state" where
  "STACK_POP_OBJECT page s =
     (let obj = page + ucast (freed (pages s page))
      in (obj, set_page page
                 (\<lambda>p. p\<lparr>freed := load32 (mem s) obj, allocated_objects := allocated_objects p + 1\<rparr>) s))"


section \<open>Page-block supply (allocator.cpp)\<close>

text \<open>\<open>mmap_wrap\<close> and \<open>munmap_wrap\<close>, on the model of the operating system.\<close>

definition mmap_wrap :: "64 word \<Rightarrow> alloc_state \<Rightarrow> 64 word \<times> alloc_state" where
  "mmap_wrap page_num' s =
     (let len = page_num' * word_of_nat PAGE_SZ in
      if len = 0 \<or> uint (os_limit s) < uint (os_brk s) + uint len then (0, s)
      else (os_brk s, s\<lparr>os_brk := os_brk s + len\<rparr>))"

definition munmap_wrap :: "64 word \<Rightarrow> 64 word \<Rightarrow> alloc_state \<Rightarrow> alloc_state" where
  "munmap_wrap block page_num' s =
     s\<lparr>os_unmapped := (block, page_num' * word_of_nat PAGE_SZ) # os_unmapped s\<rparr>"

definition PAGE_SZ_BY_IDX :: "nat \<Rightarrow> 32 word" where
  "PAGE_SZ_BY_IDX x = push_bit (x + PAGE_MULTIPLIER) 1"

definition IDX_BY_PAGE_SZ :: "64 word \<Rightarrow> 32 word option" where
  "IDX_BY_PAGE_SZ x = LOG2 (ucast (drop_bit PAGE_MULTIPLIER x))"

definition get_pageblock :: "64 word \<Rightarrow> alloc_state \<Rightarrow> (64 word \<times> alloc_state) option" where
  "get_pageblock page_num' s =
     (case IDX_BY_PAGE_SZ page_num' of
        None \<Rightarrow> None
      | Some page_class_idx \<Rightarrow>
          (case stack_remove (unat page_class_idx) s of
             None \<Rightarrow> None
           | Some (block, s1) \<Rightarrow>
               if block \<noteq> 0 then Some (block, s1)
               else
                 let (block, s2) = stack_remove_atomic (unat page_class_idx) s1 in
                 if block \<noteq> 0 then Some (block, s2)
                 else Some (mmap_wrap page_num' s2)))"

definition ret_pageblock :: "64 word \<Rightarrow> 64 word \<Rightarrow> alloc_state \<Rightarrow> alloc_state option" where
  "ret_pageblock block page_num' s =
     (case IDX_BY_PAGE_SZ page_num' of
        None \<Rightarrow> None
      | Some page_class_idx \<Rightarrow>
          (let (ok, s1) = stack_insert (unat page_class_idx) block s in
           if ok then Some s1
           else
             let (ok, s2) = stack_insert_atomic (unat page_class_idx) block s1 in
             if ok then Some s2 else Some (munmap_wrap block page_num' s2)))"

section \<open>Object headers (allocator\_header.h, allocator.cpp)\<close>

definition HEADER_SMALL :: "8 word" where "HEADER_SMALL = 0x00"
definition HEADER_LARGE :: "8 word" where "HEADER_LARGE = 0x80"
definition HEADER_TYPE_MASK :: "8 word" where "HEADER_TYPE_MASK = 0x80"
definition HEADER_TYPE_SHIFT :: nat where "HEADER_TYPE_SHIFT = 7"
definition SECURITY_OPCODE :: "8 word" where "SECURITY_OPCODE = 0xFF"
definition HEADER_TOTAL_BITS :: nat where "HEADER_TOTAL_BITS = 8"
definition HEADER_TYPE_BITS :: nat where "HEADER_TYPE_BITS = 1"
definition HEADER_PAGE_OFF_BITS :: nat where "HEADER_PAGE_OFF_BITS = 2 + PAGE_MULTIPLIER"
definition HEADER_SECURITY_BITS :: nat where
  "HEADER_SECURITY_BITS = HEADER_TOTAL_BITS - HEADER_TYPE_BITS - HEADER_PAGE_OFF_BITS"
definition GEN_MASK :: "nat \<Rightarrow> 8 word" where "GEN_MASK x = push_bit x 1 - 1"
definition HEADER_PAGE_OFF_SHIFT :: nat where "HEADER_PAGE_OFF_SHIFT = HEADER_SECURITY_BITS"
definition HEADER_PAGE_OFF_MASK :: "8 word" where
  "HEADER_PAGE_OFF_MASK = push_bit HEADER_PAGE_OFF_SHIFT (GEN_MASK HEADER_PAGE_OFF_BITS)"
definition HEADER_VALID_MASK :: "8 word" where "HEADER_VALID_MASK = GEN_MASK HEADER_SECURITY_BITS"
definition HEADER_VALID :: "8 word" where "HEADER_VALID = SECURITY_OPCODE AND HEADER_VALID_MASK"

text \<open>\<open>GET_HEADER\<close> reads the byte before the payload; the read faults in an unmapped region.\<close>

definition GET_HEADER :: "alloc_state \<Rightarrow> 64 word \<Rightarrow> 8 word option" where
  "GET_HEADER s ptr = (if unmapped s (ptr - 1) then None else Some (mem s (ptr - 1)))"

definition HEADER_PAGE_OFFSET_SET :: "32 word \<Rightarrow> 8 word" where
  "HEADER_PAGE_OFFSET_SET x = push_bit HEADER_PAGE_OFF_SHIFT (ucast x)"

definition HEADER_PAGE_OFFSET_GET :: "8 word \<Rightarrow> 32 word" where
  "HEADER_PAGE_OFFSET_GET x = ucast (drop_bit HEADER_PAGE_OFF_SHIFT (x AND HEADER_PAGE_OFF_MASK))"

definition HEADER_PAGE_GET_TYPE :: "8 word \<Rightarrow> int" where
  "HEADER_PAGE_GET_TYPE x = uint (drop_bit HEADER_TYPE_SHIFT (x AND HEADER_TYPE_MASK))"

definition HEADER_IS_BLOCK_VALID :: "8 word \<Rightarrow> bool" where
  "HEADER_IS_BLOCK_VALID x = (x AND HEADER_VALID_MASK = HEADER_VALID)"

text \<open>
  \<open>HEADER_INVALIDATE\<close> and \<open>HEADER_VALIDATE\<close> are empty macros: the source is compiled
  without \<open>HEADER_VALIDATION_ACTIVE\<close>.
\<close>

definition HEADER_INVALIDATE :: "64 word \<Rightarrow> alloc_state \<Rightarrow> alloc_state" where
  "HEADER_INVALIDATE ptr s = s"

definition WRITE_HEADER :: "64 word \<Rightarrow> 8 word \<Rightarrow> alloc_state \<Rightarrow> alloc_state" where
  "WRITE_HEADER ptr header s = s\<lparr>mem := (mem s)(ptr := header)\<rparr>"

definition WRITE_LARGE_HEADER_SZ :: "64 word \<Rightarrow> 64 word \<Rightarrow> alloc_state \<Rightarrow> alloc_state" where
  "WRITE_LARGE_HEADER_SZ ptr sz s = s\<lparr>mem := store64 (mem s) ptr sz\<rparr>"

definition GET_LARGER_ALLOC_START :: "64 word \<Rightarrow> 64 word" where
  "GET_LARGER_ALLOC_START obj = obj - word_of_nat LARGE_HEADER_SIZE"

definition GET_LARGER_ALLOC_SZ :: "alloc_state \<Rightarrow> 64 word \<Rightarrow> 64 word" where
  "GET_LARGER_ALLOC_SZ s obj = load64 (mem s) (obj - word_of_nat LARGE_HEADER_SIZE)"

definition ALIGN_MASK :: "64 word \<Rightarrow> 64 word" where
  "ALIGN_MASK x = x - 1"

definition GET_PAGE_BOUNDARY :: "64 word \<Rightarrow> 64 word" where
  "GET_PAGE_BOUNDARY x = x AND NOT (ALIGN_MASK (word_of_nat PAGE_SZ))"

definition GET_PAGE_START :: "64 word \<Rightarrow> 32 word \<Rightarrow> 64 word" where
  "GET_PAGE_START x off = GET_PAGE_BOUNDARY x - ucast off * word_of_nat PAGE_SZ"

definition GET_PAGE_NUM :: "64 word \<Rightarrow> 64 word" where
  "GET_PAGE_NUM x =
     drop_bit PAGE_BITS x + (if x AND ALIGN_MASK (word_of_nat PAGE_SZ) \<noteq> 0 then 1 else 0)"

definition header_write_small :: "64 word \<Rightarrow> 64 word \<Rightarrow> alloc_state \<Rightarrow> alloc_state" where
  "header_write_small page obj s =
     (let header = HEADER_SMALL OR HEADER_VALID;
          page_offset = (ucast (drop_bit PAGE_BITS (obj - page)) :: 32 word);
          header = header OR HEADER_PAGE_OFFSET_SET page_offset
      in WRITE_HEADER (obj - 1) header s)"

definition header_write_large :: "64 word \<Rightarrow> 64 word \<Rightarrow> alloc_state \<Rightarrow> alloc_state" where
  "header_write_large obj sz s =
     (let header = HEADER_LARGE OR HEADER_VALID
      in WRITE_HEADER (obj + word_of_nat LARGE_HEADER_SIZE - 1) header (WRITE_LARGE_HEADER_SZ obj sz s))"

text \<open>\<open>object_type_decode\<close> returns the type, or -1, and writes the page offset.\<close>

definition object_type_decode :: "alloc_state \<Rightarrow> 64 word \<Rightarrow> (int \<times> 32 word) option" where
  "object_type_decode s obj =
     (case GET_HEADER s obj of
        None \<Rightarrow> None
      | Some header \<Rightarrow>
          let page_offset = HEADER_PAGE_OFFSET_GET header
          in Some (if HEADER_IS_BLOCK_VALID header then HEADER_PAGE_GET_TYPE header else - 1,
                   page_offset))"

section \<open>The page-block engine (allocator.cpp)\<close>

definition page_internal_init ::
  "64 word \<Rightarrow> 32 word \<Rightarrow> 32 word \<Rightarrow> 32 word \<Rightarrow> alloc_state \<Rightarrow> alloc_state" where
  "page_internal_init alloc object_class_idx page_num' thread_id' s =
     (let page = alloc;
          unallocated_off0 = (40 :: 32 word);
          align_rq = ALIGN_MASK (word_of_nat DEFAULT_ALLIGN);
          align_rq = align_rq - ((page + ucast unallocated_off0) AND align_rq)
      in set_page page
           (\<lambda>p. p\<lparr>object_size := word_of_nat (class_sizes ! unat object_class_idx),
                  page_num := ucast page_num',
                  allocated_objects := 0,
                  freed := 0,
                  sync := \<lparr>rf_count = 0, remotely_freed = 0, rf_thread_id = ucast thread_id'\<rparr>,
                  next_pg := 0, prev_pg := 0,
                  unallocated_off := ucast (ucast unallocated_off0 + align_rq)\<rparr>) s)"

text \<open>
  The loop of \<open>page_internal_alloc\<close> that moves the detached remote LIFO, starting at
  offset \<open>rf\<close>, onto the local LIFO.
\<close>

partial_function (option) collect_remote ::
  "64 word \<Rightarrow> 24 word \<Rightarrow> alloc_state \<Rightarrow> alloc_state option" where
  "collect_remote page rf s =
     (if rf \<noteq> 0 then
        let obj = page + ucast rf;
            next = remotely_freed (rfid_of (load64 (mem s) obj))
        in collect_remote page next (STACK_PUSH_OBJECT page obj (ucast rf) s)
      else Some s)"

declare collect_remote.simps [code]

definition page_internal_alloc :: "64 word \<Rightarrow> alloc_state \<Rightarrow> (64 word \<times> alloc_state) option" where
  "page_internal_alloc page s =
     do {
       s1 \<leftarrow> (if remotely_freed (sync (pages s page)) \<noteq> 0 then
                 let old_head = sync (pages s page);
                     new_head = \<lparr>rf_count = 0, remotely_freed = 0, rf_thread_id = rf_thread_id old_head\<rparr>;
                     (ok, w) = ATOMIC_CAS (rfid_both old_head) (rfid_both new_head) (rfid_both old_head)
                 in collect_remote page (remotely_freed old_head)
                      (set_page page (\<lambda>p. p\<lparr>sync := rfid_of w\<rparr>) s)
               else Some s);
       if freed (pages s1 page) \<noteq> 0 then Some (STACK_POP_OBJECT page s1)
       else
         let base_alloc = page + ucast (unallocated_off (pages s1 page));
             page_limit = page + ucast ((ucast (page_num (pages s1 page)) :: 32 word) * word_of_nat PAGE_SZ)
         in if base_alloc + ucast (object_size (pages s1 page)) < page_limit then
              let ret = base_alloc + 1;
                  s2 = header_write_small page ret s1
              in Some (ret, set_page page
                              (\<lambda>p. p\<lparr>unallocated_off := unallocated_off p + ucast (object_size p),
                                     allocated_objects := allocated_objects p + 1\<rparr>) s2)
            else Some (0, s1)
     }"

text \<open>
  \<open>page_internal_free\<close>; \<open>local_heap\<close> is the class index of the list. In the remote
  case the loop retries until its compare-and-swap succeeds; \<open>env\<close> is the schedule of
  the other threads, the synchronisation words that they leave between this thread's read
  and its compare-and-swap.
\<close>

definition remote_free_new :: "rfid \<Rightarrow> 32 word \<Rightarrow> 32 word \<Rightarrow> bool \<times> rfid" where
  "remote_free_new old_head obj_offset thread_id' =
     (let new_head = old_head;
          maybe_stolen = False;
          (new_head, maybe_stolen) =
             (if rf_thread_id old_head = ORPHAN_ID
              then (new_head\<lparr>rf_thread_id := ucast thread_id'\<rparr>, True)
              else (new_head, maybe_stolen));
          new_head = new_head\<lparr>remotely_freed := ucast obj_offset\<rparr>;
          new_head = new_head\<lparr>rf_count := rf_count new_head + 1\<rparr>
      in (maybe_stolen, new_head))"

fun remote_free_sched ::
  "rfid list \<Rightarrow> 64 word \<Rightarrow> 64 word \<Rightarrow> 32 word \<Rightarrow> 32 word \<Rightarrow> alloc_state \<Rightarrow> bool \<times> alloc_state" where
  "remote_free_sched env page obj obj_offset thread_id' s =
     (let old_head = sync (pages s page);
          s1 = s\<lparr>mem := store64 (mem s) obj (rfid_both old_head)\<rparr>;
          (maybe_stolen, new_head) = remote_free_new (rfid_of (load64 (mem s1) obj)) obj_offset thread_id'
      in case env of
           [] \<Rightarrow>
             let (ok, w) = ATOMIC_CAS (rfid_both old_head) (rfid_both new_head) (load64 (mem s1) obj)
             in (maybe_stolen, set_page page (\<lambda>p. p\<lparr>sync := rfid_of w\<rparr>) s1)
         | e # env' \<Rightarrow>
             let (ok, w) = ATOMIC_CAS (rfid_both e) (rfid_both new_head) (load64 (mem s1) obj);
                 s2 = set_page page (\<lambda>p. p\<lparr>sync := rfid_of w\<rparr>) s1
             in if ok then (maybe_stolen, s2)
                else remote_free_sched env' page obj obj_offset thread_id' s2)"

definition page_internal_free_sched ::
  "rfid list \<Rightarrow> nat \<Rightarrow> 64 word \<Rightarrow> 64 word \<Rightarrow> 32 word \<Rightarrow> alloc_state \<Rightarrow> alloc_state option" where
  "page_internal_free_sched env local_heap page obj thread_id' s =
     (let obj_offset = (ucast (obj - page) :: 32 word) in
      if ucast (rf_thread_id (sync (pages s page))) = thread_id' then
        let s1 = STACK_PUSH_OBJECT page obj obj_offset s in
        if allocated_objects (pages s1 page) = 0 \<and> head (private_heap (thread_data s1) local_heap) \<noteq> page
        then do {
               s2 \<leftarrow> remove_node_dq local_heap page s1;
               ret_pageblock page (ucast (page_num (pages s2 page))) s2
             }
        else Some s1
      else
        let (maybe_stolen, s1) = remote_free_sched env page obj obj_offset thread_id' s in
        if maybe_stolen \<and> ucast (rf_thread_id (sync (pages s1 page))) = thread_id'
        then Some (insert_front_dq local_heap page s1)
        else Some s1)"

definition page_internal_free ::
  "nat \<Rightarrow> 64 word \<Rightarrow> 64 word \<Rightarrow> 32 word \<Rightarrow> alloc_state \<Rightarrow> alloc_state option" where
  "page_internal_free = page_internal_free_sched []"

section \<open>Large objects and the entry points (allocator.cpp)\<close>

definition large_alloc :: "64 word \<Rightarrow> alloc_state \<Rightarrow> 64 word \<times> alloc_state" where
  "large_alloc sz s =
     (let pages_num = GET_PAGE_NUM (sz + word_of_nat LARGE_HEADER_SIZE);
          (ret, s1) = mmap_wrap pages_num s
      in if ret \<noteq> 0 then (ret + word_of_nat LARGE_HEADER_SIZE, header_write_large ret pages_num s1)
         else (ret, s1))"

definition large_free :: "64 word \<Rightarrow> alloc_state \<Rightarrow> alloc_state" where
  "large_free obj s = munmap_wrap (GET_LARGER_ALLOC_START obj) (GET_LARGER_ALLOC_SZ s obj) s"

text \<open>The loop of \<open>malloc\<close> over the page-blocks of a class, from \<open>cur\<close> on.\<close>

partial_function (option) malloc_walk :: "64 word \<Rightarrow> alloc_state \<Rightarrow> (64 word \<times> alloc_state) option" where
  "malloc_walk cur s =
     (if cur = 0 then Some (0, s)
      else
        page_internal_alloc cur s \<bind>
          (\<lambda>(ret, s1). if ret \<noteq> 0 then Some (ret, s1) else malloc_walk (next_pg (pages s1 cur)) s1))"

declare malloc_walk.simps [code]

definition malloc :: "64 word \<Rightarrow> alloc_state \<Rightarrow> (64 word \<times> alloc_state) option" where
  "malloc sz s =
     (if sz = 0 then Some (0, s)
      else if sz < word_of_nat SMALL_ALLOCATION_LIMIT then
        do {
          (class_idx, page_num') \<leftarrow> class_size_decode sz;
          (ret, s1) \<leftarrow> malloc_walk (head (private_heap (thread_data s) (unat class_idx))) s;
          if ret \<noteq> 0 then Some (ret, s1)
          else do {
            (alloc, s2) \<leftarrow> get_pageblock (ucast page_num') s1;
            if alloc = 0 then Some (0, s2)
            else
              let s3 = page_internal_init alloc class_idx page_num' (thread_id (thread_data s2)) s2;
                  s4 = insert_front_dq (unat class_idx) alloc s3
              in page_internal_alloc alloc s4
          }
        }
      else Some (large_alloc sz s))"

definition calloc :: "64 word \<Rightarrow> 64 word \<Rightarrow> alloc_state \<Rightarrow> (64 word \<times> alloc_state) option" where
  "calloc nmemb sz s =
     (let total_alloc = nmemb * sz in
      if nmemb \<noteq> 0 \<and> total_alloc div nmemb \<noteq> sz then Some (0, s)
      else do {
        (ptr, s1) \<leftarrow> malloc total_alloc s;
        if ptr \<noteq> 0
        then Some (ptr, s1\<lparr>mem := (\<lambda>a. if a - ptr < total_alloc then 0 else mem s1 a)\<rparr>)
        else Some (ptr, s1)
      })"

definition free :: "64 word \<Rightarrow> alloc_state \<Rightarrow> (abort + alloc_state) option" where
  "free obj s =
     (if obj = 0 then Some (Inr s)
      else
        do {
          (type, page_offset) \<leftarrow> object_type_decode s obj;
          if type = CLASS_SMALL then
            let page = GET_PAGE_START obj page_offset in
            do {
              (class_idx, page_offset') \<leftarrow> class_size_decode (ucast (object_size (pages s page)) - 1);
              s1 \<leftarrow> page_internal_free (unat class_idx) page obj (thread_id (thread_data s)) s;
              Some (Inr s1)
            }
          else if type = CLASS_LARGE then Some (Inr (large_free obj s))
          else Some (Inl (Abort ''Broken object, aborting..[free]\<newline>''))
        })"

definition realloc :: "64 word \<Rightarrow> 64 word \<Rightarrow> alloc_state \<Rightarrow> (abort + 64 word \<times> alloc_state) option" where
  "realloc obj sz s =
     (if obj = 0 then map_option Inr (malloc sz s)
      else
        do {
          (type, page_offset) \<leftarrow> object_type_decode s obj;
          if type \<noteq> CLASS_SMALL \<and> type \<noteq> CLASS_LARGE
          then Some (Inl (Abort ''Broken object, aborting [realloc]..\<newline>''))
          else
            let old_sz =
                  (if type = CLASS_SMALL
                   then ucast (object_size (pages s (GET_PAGE_START obj page_offset))) - 1
                   else GET_LARGER_ALLOC_SZ s obj)
            in if old_sz > sz then Some (Inr (obj, s))
               else do {
                 (ret, s1) \<leftarrow> malloc sz s;
                 if ret \<noteq> 0 then
                   do {
                     r \<leftarrow> free obj (s1\<lparr>mem := memcpy (mem s1) ret obj old_sz\<rparr>);
                     case r of Inl a \<Rightarrow> Some (Inl a) | Inr s2 \<Rightarrow> Some (Inr (ret, s2))
                   }
                 else Some (Inr (ret, s1))
               }
        })"

text \<open>
  The constructor of \<open>thread_data_struct\<close>, and a state in which nothing has been
  allocated: the operating system hands out addresses from \<open>brk\<close> up to \<open>limit\<close>.
\<close>

definition thread_data_struct :: "alloc_state \<Rightarrow> alloc_state" where
  "thread_data_struct s =
     (let zero_node = \<lparr>nxt = 0, count = 0, state = 0\<rparr>;
          tid = global_thread_id s + 1
      in s\<lparr>global_thread_id := tid,
           thread_data := \<lparr>thread_id = tid, private_heap = (\<lambda>_. \<lparr>head = 0, tail = 0\<rparr>),
                           top' = (\<lambda>_. zero_node)\<rparr>\<rparr>)"

definition zero_page :: page_t where
  "zero_page = \<lparr>next_pg = 0, prev_pg = 0, page_num = 0, object_size = 0, allocated_objects = 0,
                unallocated_off = 0, freed = 0,
                sync = \<lparr>rf_count = 0, remotely_freed = 0, rf_thread_id = 0\<rparr>\<rparr>"

definition init_state :: "64 word \<Rightarrow> 64 word \<Rightarrow> alloc_state" where
  "init_state brk limit =
     thread_data_struct
       \<lparr>pages = (\<lambda>_. zero_page), mem = (\<lambda>_. 0),
        thread_data = \<lparr>thread_id = 0, private_heap = (\<lambda>_. \<lparr>head = 0, tail = 0\<rparr>),
                        top' = (\<lambda>_. \<lparr>nxt = 0, count = 0, state = 0\<rparr>)\<rparr>,
        global_freeheap = (\<lambda>_. \<lparr>nxt = 0, count = 0, state = 0\<rparr>),
        global_thread_id = 0, os_brk = brk, os_limit = limit, os_unmapped = []\<rparr>"

text \<open>An example: the state of a process that has not allocated yet.\<close>

definition example_state :: alloc_state where
  "example_state = init_state 0x10000000 0x20000000"

text \<open>The pointer that a call of \<open>malloc\<close> returns, and the state that it or \<open>free\<close> leaves.\<close>

definition malloc_ptr :: "64 word \<Rightarrow> alloc_state \<Rightarrow> 64 word" where
  "malloc_ptr sz s = (case malloc sz s of Some (p, _) \<Rightarrow> p | None \<Rightarrow> 0)"

definition malloc_state :: "64 word \<Rightarrow> alloc_state \<Rightarrow> alloc_state" where
  "malloc_state sz s = (case malloc sz s of Some (_, s') \<Rightarrow> s' | None \<Rightarrow> s)"

definition free_state :: "64 word \<Rightarrow> alloc_state \<Rightarrow> alloc_state" where
  "free_state obj s = (case free obj s of Some (Inr s') \<Rightarrow> s' | _ \<Rightarrow> s)"

definition realloc_ptr :: "64 word \<Rightarrow> 64 word \<Rightarrow> alloc_state \<Rightarrow> 64 word" where
  "realloc_ptr obj sz s = (case realloc obj sz s of Some (Inr (p, _)) \<Rightarrow> p | _ \<Rightarrow> 0)"

definition realloc_state :: "64 word \<Rightarrow> 64 word \<Rightarrow> alloc_state \<Rightarrow> alloc_state" where
  "realloc_state obj sz s = (case realloc obj sz s of Some (Inr (_, s')) \<Rightarrow> s' | _ \<Rightarrow> s)"

text \<open>The caller of the allocator writes byte \<open>v\<close> at address \<open>a\<close>.\<close>

definition user_write :: "64 word \<Rightarrow> 8 word \<Rightarrow> alloc_state \<Rightarrow> alloc_state" where
  "user_write a v s = s\<lparr>mem := (mem s)(a := v)\<rparr>"

text \<open>
  An example of an orphaned page-block: the first thread has allocated an object of 8
  bytes and has exited, and its destructor has written \<open>ORPHAN_ID\<close> into the owner
  field of the block that still holds the object; \<open>n\<close> threads have been created so
  far, and one more thread starts.
\<close>

definition orphaned_block_state :: "32 word \<Rightarrow> alloc_state" where
  "orphaned_block_state n =
     thread_data_struct
       ((set_page 0x10000000 (\<lambda>p. p\<lparr>sync := (sync p)\<lparr>rf_thread_id := ORPHAN_ID\<rparr>\<rparr>)
           (malloc_state 8 example_state))\<lparr>global_thread_id := n\<rparr>)"



text \<open>
  The regions that the operating system has been asked to unmap lie below \<open>os_brk\<close>: it
  hands out fresh addresses only, so what it hands out next is mapped.
\<close>

definition unmapped_below_brk :: "alloc_state \<Rightarrow> bool" where
  "unmapped_below_brk s =
     list_all (\<lambda>(b, len). uint b + uint len \<le> uint (os_brk s)) (os_unmapped s)"

section \<open>Well-formed lists of page-blocks\<close>




section \<open>Properties of the size-class decoder\<close>

lemma drop8: "drop_bit 8 (s::64 word) = word_of_nat (unat s div 256)"
proof -
  have "unat (drop_bit 8 s) = unat s div 256"
    by (simp add: unat_drop_bit_eq drop_bit_eq_div unat_div)
  then show ?thesis
    by (metis of_nat_unat ucast_id)
qed

lemma LOG2_vals: "LOG2 1 = Some 0" "LOG2 3 = Some 1" "LOG2 5 = Some 2" "LOG2 7 = Some 2"
  by code_simp+

lemma floorlog_vals: "floorlog 2 (Suc 0) = 1" "floorlog 2 1 = 1" "floorlog 2 3 = 2" "floorlog 2 5 = 3" "floorlog 2 7 = 3"
  by (simp_all add: compute_floorlog)

lemma range_word:
  assumes "unat (s::64 word) < 2048"
  shows "LOG2 (ucast (drop_bit 8 s OR 1)) = Some (word_of_nat (spec_range (unat s)))
    \<and> spec_range (unat s) = (if unat s < 512 then 0 else if unat s < 1024 then 1 else 2)"
proof -
  define q where "q = unat s div 256"
  have q: "q < 8" using assms by (simp add: q_def)
  have d: "drop_bit 8 s = word_of_nat q" using drop8 by (simp add: q_def)
  have r: "q = 0 \<or> q = 1 \<or> q = 2 \<or> q = 3 \<or> q = 4 \<or> q = 5 \<or> q = 6 \<or> q = 7" using q by arith
  have b: "(q = 0 \<or> q = 1) \<longleftrightarrow> unat s < 512" "(q = 2 \<or> q = 3) \<longleftrightarrow> (512 \<le> unat s \<and> unat s < 1024)"
    unfolding q_def by arith+
  have u: "unat s div 2 ^ 8 = q" by (simp add: q_def)
  from r b show ?thesis
    unfolding spec_range_def d u
    apply (elim disjE)
    apply (simp_all add: LOG2_vals floorlog_vals)
    done
qed



lemma unat_drop: "unat (drop_bit k (w::'a::len word)) = unat w div 2 ^ k"
  unfolding unat_drop_bit_eq by (rule drop_bit_eq_div)

lemma unat_ucast_64_32: "unat (w::64 word) < 2 ^ 32 \<Longrightarrow> unat (ucast w :: 32 word) = unat w"
  by (simp add: unsigned_ucast_eq take_bit_nat_eq_self)

lemma decode_word:
  assumes "unat (s::64 word) < 2048"
  shows "class_size_decode s = Some (word_of_nat (spec_class_index (unat s)), word_of_nat (spec_pageblock_pages (unat s)))"
proof -
  let ?n = "unat s"
  let ?r = "spec_range ?n"
  from range_word[OF assms] have L: "LOG2 (ucast (drop_bit 8 s OR 1)) = Some (word_of_nat ?r)"
    and R: "?r = (if ?n < 512 then 0 else if ?n < 1024 then 1 else 2)" by simp_all
  have rc: "?r = 0 \<or> ?r = 1 \<or> ?r = 2" using R by (simp split: if_splits)
  have ge: "?r * 512 \<le> ?n" using R by (simp split: if_splits)
  have ur: "unat (word_of_nat ?r :: 32 word) = ?r" using rc by (auto simp: unat_of_nat)
  let ?d = "s - ucast ((512::32 word) * word_of_nat ?r)"
  have sub: "unat ?d = ?n - ?r * 512"
    using rc ge by (auto simp: unat_sub_if_size word_size unat_of_nat)
  have "unat (drop_bit (4 + ?r) ?d) = (?n - ?r * 512) div 2 ^ (4 + ?r)"
    by (simp only: unat_drop sub)
  moreover have "(?n - ?r * 512) div 2 ^ (4 + ?r) \<le> ?n" 
    by (meson diff_le_self div_le_dividend le_trans)
  ultimately have sr: "unat (ucast (drop_bit (4 + ?r) ?d) :: 32 word) = spec_subrange ?n"
    using assms by (simp add: unat_ucast_64_32 spec_subrange_def)
  then have sw: "(ucast (drop_bit (4 + ?r) ?d) :: 32 word) = word_of_nat (spec_subrange ?n)"
    by (metis of_nat_unat ucast_id)
  show ?thesis
    unfolding class_size_decode_def Let_def L option.case ur sw
    using rc 
    by (auto simp add: spec_class_index_def spec_pageblock_pages_def PAGE_MULTIPLIER_def)
qed

lemma class_sizes_maps:
  "class_sizes = map (\<lambda>c. 16 * (c + 1)) [0..<32] @ map (\<lambda>c. 544 + 32 * c) [0..<16]
      @ map (\<lambda>c. 1088 + 64 * c) [0..<16]"
  unfolding class_sizes_def by (simp add: upt_rec)

lemma class_sizes_closed:
  assumes "c < 64"
  shows "class_sizes ! c =
    (if c < 32 then 16 * (c + 1) else if c < 48 then 544 + 32 * (c - 32) else 1088 + 64 * (c - 48))"
proof -
  consider "c < 32" | "32 \<le> c" "c < 48" | "48 \<le> c" "c < 64"
    using assms by linarith
  then show ?thesis
  proof cases
    case 1
    then show ?thesis unfolding class_sizes_maps by (simp add: nth_append)
  next
    case 2
    then have "c - 32 < 16" by simp 
    with 2 show ?thesis unfolding class_sizes_maps by (simp add: nth_append)
  next
    case 3
    then have "c - 32 - 16 < 16" "\<not> c - 32 < 16" "c - 32 - 16 = c - 48" by simp_all
    with 3 show ?thesis unfolding class_sizes_maps by (simp add: nth_append)
  qed
qed

lemma spec_range_cases:
  assumes "n < 2048"
  shows "spec_range n = (if n < 512 then 0 else if n < 1024 then 1 else 2)"
  using range_word[of "word_of_nat n"] assms by (simp add: unat_of_nat)

lemma spec_class_closed:
  assumes "n < 2048"
  shows "spec_class_index n =
     (if n < 512 then n div 16 else if n < 1024 then 32 + (n - 512) div 32 else 48 + (n - 1024) div 64)"
  using assms unfolding spec_class_index_def spec_subrange_def spec_range_cases[OF assms]
  by simp

lemma spec_class_props:
  assumes "n < 2048"
  shows "spec_class_index n < 64" "n < class_sizes ! spec_class_index n"
    "range_of_class (spec_class_index n) = spec_range n"
proof -
  consider "n < 512" | "512 \<le> n" "n < 1024" | "1024 \<le> n" "n < 2048"
    using assms by linarith
  then have "spec_class_index n < 64 \<and> n < class_sizes ! spec_class_index n
     \<and> range_of_class (spec_class_index n) = spec_range n"
  proof cases
    case 1
    then have c: "spec_class_index n = n div 16" "spec_range n = 0"
      by (simp_all add: spec_class_closed spec_range_cases)
    have "n div 16 < 32" using 1 by simp
    moreover have "n < 16 * (n div 16 + 1)" by simp
    ultimately show ?thesis unfolding c by (simp add: class_sizes_closed range_of_class_def)
  next
    case 2
    define k where "k = (n - 512) div 32"
    from 2 have c: "spec_class_index n = 32 + k" "spec_range n = 1"
      by (simp_all add: spec_class_closed spec_range_cases k_def)
    have "k < 16" using 2 unfolding k_def by simp
    moreover have "n - 512 < 32 * (k + 1)" unfolding k_def by simp
    ultimately show ?thesis using 2 unfolding c by (simp add: class_sizes_closed range_of_class_def)
  next
    case 3
    define k where "k = (n - 1024) div 64"
    from 3 have c: "spec_class_index n = 48 + k" "spec_range n = 2"
      by (simp_all add: spec_class_closed spec_range_cases k_def)
    have "k < 16" using 3 unfolding k_def by simp
    moreover have "n - 1024 < 64 * (k + 1)" unfolding k_def by simp
    ultimately show ?thesis using 3 unfolding c by (simp add: class_sizes_closed range_of_class_def)
  qed
  then show "spec_class_index n < 64" "n < class_sizes ! spec_class_index n"
    "range_of_class (spec_class_index n) = spec_range n" by simp_all
qed

lemma class_steps:
  assumes "0 < c" "c < 64"
  shows "class_sizes ! c - class_sizes ! (c - 1) = spec_step (range_of_class c)"
proof -
  consider "c < 32" | "c = 32" | "32 < c" "c < 48" | "c = 48" | "48 < c" "c < 64"
    using assms by linarith
  then show ?thesis
  proof cases
    case 1
    with assms show ?thesis by (simp add: class_sizes_closed spec_step_def range_of_class_def)
  next
    case 2
    then show ?thesis by (simp add: class_sizes_closed spec_step_def range_of_class_def)
  next
    case 3
    then have "c = 33 + (c - 33)" "c - 33 < 15" by simp_all
    then obtain k where "c = 33 + k" "k < 15" by blast
    then show ?thesis by (simp add: class_sizes_closed spec_step_def range_of_class_def)
  next
    case 4
    then show ?thesis by (simp add: class_sizes_closed spec_step_def range_of_class_def)
  next
    case 5
    then have "c = 49 + (c - 49)" "c - 49 < 15" by simp_all
    then obtain k where "c = 49 + k" "k < 15" by blast
    then show ?thesis by (simp add: class_sizes_closed spec_step_def range_of_class_def)
  qed
qed


text \<open>
  C4. For every request size \<open>s\<close> in [1, 2047] the decoder of the source returns the class
  index and the page-block size that the specification's formula gives (range =
  floor (log2 ((s >> 8) | 1)), subrange = (s - range * 512) >> (4 + range), index =
  {0, 32, 48}[range] + subrange, 2 ^ (range + 3) pages); the range is 0, 1 or 2, the class
  selected has a slot size above \<open>s\<close> and lies in that range, and every class size differs
  from the one before it by the step of its range, 16, 32 or 64.
\<close>

theorem class_size_decode_correct:
  assumes "1 \<le> unat s" "unat s < 2048"
  shows "class_size_decode s =
           Some (word_of_nat (spec_class_index (unat s)), word_of_nat (spec_pageblock_pages (unat s)))
       \<and> spec_range (unat s) \<le> 2
       \<and> spec_class_index (unat s) < 64
       \<and> unat s < class_sizes ! spec_class_index (unat s)
       \<and> range_of_class (spec_class_index (unat s)) = spec_range (unat s)
       \<and> (\<forall>c. 0 < c \<and> c < 64 \<longrightarrow>
             class_sizes ! c - class_sizes ! (c - 1) = spec_step (range_of_class c))"
  using assms decode_word[of s] spec_class_props[of "unat s"] class_steps
  by (simp add: spec_range_cases)

theorem class_size_decode_correct_witness:
  "class_size_decode 24 = Some (1, 8) \<and> class_sizes ! 1 = 32 \<and> class_sizes ! 1 - class_sizes ! 0 = 16"
proof -
  have u: "unat (24 :: 64 word) = 24" by simp
  have h: "1 \<le> unat (24 :: 64 word)" "unat (24 :: 64 word) < 2048" by simp_all
  have c: "spec_class_index 24 = 1" "spec_pageblock_pages 24 = 8"
    by (simp_all add: spec_class_closed spec_pageblock_pages_def spec_range_cases)
  have s: "spec_step (range_of_class 1) = 16" by (simp add: spec_step_def range_of_class_def)
  from class_size_decode_correct[OF h] show ?thesis
    unfolding u c using s
    by (auto simp: class_sizes_def)
qed

section \<open>Packed words and little-endian memory\<close>

lemma dq_of_both [simp]: "dq_of (dq_both d) = d"
proof -
  have "ucast (dq_both d) = nxt d"
    unfolding dq_both_def by (rule bit_word_eqI) (auto simp: bit_simps)
  moreover have "ucast (drop_bit 40 (dq_both d)) = count d"
    unfolding dq_both_def by (rule bit_word_eqI) (auto simp: bit_simps dest: bit_imp_le_length)
  moreover have "ucast (drop_bit 52 (dq_both d)) = state d"
    unfolding dq_both_def by (rule bit_word_eqI) (auto simp: bit_simps dest: bit_imp_le_length)
  ultimately show ?thesis by (simp add: dq_of_def)
qed

lemma rfid_of_both [simp]: "rfid_of (rfid_both d) = d"
proof -
  have "ucast (rfid_both d) = rf_count d"
    unfolding rfid_both_def by (rule bit_word_eqI) (auto simp: bit_simps)
  moreover have "ucast (drop_bit 16 (rfid_both d)) = remotely_freed d"
    unfolding rfid_both_def by (rule bit_word_eqI) (auto simp: bit_simps dest: bit_imp_le_length)
  moreover have "ucast (drop_bit 40 (rfid_both d)) = rf_thread_id d"
    unfolding rfid_both_def by (rule bit_word_eqI) (auto simp: bit_simps dest: bit_imp_le_length)
  ultimately show ?thesis by (simp add: rfid_of_def)
qed

lemma dq_both_inj [simp]: "dq_both a = dq_both b \<longleftrightarrow> a = b"
  by (metis dq_of_both)

lemma rfid_both_inj [simp]: "rfid_both a = rfid_both b \<longleftrightarrow> a = b"
  by (metis rfid_of_both)

lemma word32_bytes:
  "ucast (ucast v :: 8 word) OR push_bit 8 (ucast (ucast (drop_bit 8 v) :: 8 word))
     OR push_bit 16 (ucast (ucast (drop_bit 16 v) :: 8 word))
     OR push_bit 24 (ucast (ucast (drop_bit 24 v) :: 8 word)) = (v :: 32 word)"
proof (rule bit_word_eqI)
  fix n assume n: "n < LENGTH(32)"
  consider "n < 8" | "8 \<le> n" "n < 16" | "16 \<le> n" "n < 24" | "24 \<le> n" "n < 32"
    using n by fastforce
  then show "bit (ucast (ucast v :: 8 word) OR push_bit 8 (ucast (ucast (drop_bit 8 v) :: 8 word))
     OR push_bit 16 (ucast (ucast (drop_bit 16 v) :: 8 word))
     OR push_bit 24 (ucast (ucast (drop_bit 24 v) :: 8 word)) :: 32 word) n = bit v n"
    by cases (auto simp: bit_simps)
qed

lemma addr_neq [simp]:
  "(a :: 64 word) + 1 \<noteq> a" "a + 2 \<noteq> a" "a + 3 \<noteq> a" "a \<noteq> a + 1" "a \<noteq> a + 2" "a \<noteq> a + 3"
  "a + 1 \<noteq> a + 2" "a + 1 \<noteq> a + 3" "a + 2 \<noteq> a + 3" "a + 2 \<noteq> a + 1" "a + 3 \<noteq> a + 1" "a + 3 \<noteq> a + 2"
  by simp_all

lemma load32_store32 [simp]: "load32 (store32 m a v) a = v"
  unfolding load32_def store32_def by (simp add: word32_bytes)


lemma word64_halves:
  "ucast (ucast v :: 32 word) OR push_bit 32 (ucast (ucast (drop_bit 32 v) :: 32 word)) = (v :: 64 word)"
proof (rule bit_word_eqI)
  fix n assume n: "n < LENGTH(64)"
  consider "n < 32" | "32 \<le> n" "n < 64" using n by fastforce
  then show "bit (ucast (ucast v :: 32 word) OR push_bit 32 (ucast (ucast (drop_bit 32 v) :: 32 word)) :: 64 word) n = bit v n"
    by cases (auto simp: bit_simps)
qed

lemma load32_store32_plus4 [simp]:
  "load32 (store32 m (a + 4) v) a = load32 m a"
  "load32 (store32 m a v) (a + 4) = load32 m (a + 4)"
  unfolding load32_def store32_def by simp_all

lemma load64_store64 [simp]: "load64 (store64 m a v) a = v"
  unfolding load64_def store64_def by (simp add: word64_halves)

lemma store32_other: "b \<noteq> a \<Longrightarrow> b \<noteq> a + 1 \<Longrightarrow> b \<noteq> a + 2 \<Longrightarrow> b \<noteq> a + 3 \<Longrightarrow> store32 m a v b = m b"
  unfolding store32_def by simp

lemma store32_pred [simp]: "store32 m a v (a - 1) = m (a - 1)"
  unfolding store32_def by simp

lemma store64_pred [simp]: "store64 m a v (a - 1) = m (a - 1)"
  unfolding store64_def store32_def by simp

section \<open>The atomic counting stack\<close>

lemma CAS_success: "ATOMIC_CAS cur new old = (True, w) \<Longrightarrow> cur = old \<and> w = new"
  by (auto simp: ATOMIC_CAS_def split: if_splits)

lemma remove_new_pages:
  "pages s' = pages s \<Longrightarrow> stack_remove_atomic_new s' h = stack_remove_atomic_new s h"
  by (simp add: stack_remove_atomic_new_def read_node_def)

declare stack_insert_atomic_sched.simps [simp del]
declare stack_remove_atomic_sched.simps [simp del]
declare remote_free_sched.simps [simp del]

lemma insert_sched_installs:
  "stack_insert_atomic_sched env i page s = (True, s') \<Longrightarrow>
     \<exists>h \<in> set (global_freeheap s i # env). global_freeheap s' i = stack_insert_atomic_new h page"
proof (induction env arbitrary: s)
  case Nil
  then show ?case
    by (subst (asm) stack_insert_atomic_sched.simps)
       (auto simp: Let_def ATOMIC_CAS_def write_node_def split: if_splits)
next
  case (Cons e env)
  let ?old = "global_freeheap s i"
  from Cons.prems have nf: "count ?old \<noteq> COUNT_MAX"
    by (subst (asm) stack_insert_atomic_sched.simps) (auto simp: Let_def split: if_splits)
  show ?case
  proof (cases "e = ?old")
    case True
    with Cons.prems nf show ?thesis
      by (subst (asm) stack_insert_atomic_sched.simps)
         (auto simp: Let_def ATOMIC_CAS_def write_node_def)
  next
    case False
    define s2 where "s2 = (write_node page ?old s)\<lparr>global_freeheap := (global_freeheap (write_node page ?old s))(i := e)\<rparr>"
    from False Cons.prems nf have "stack_insert_atomic_sched env i page s2 = (True, s')"
      by (subst (asm) stack_insert_atomic_sched.simps)
         (auto simp: Let_def ATOMIC_CAS_def write_node_def s2_def)
    from Cons.IH[OF this] have "\<exists>h \<in> set (e # env). global_freeheap s' i = stack_insert_atomic_new h page"
      by (simp add: s2_def)
    then show ?thesis by auto
  qed
qed

lemma remove_sched_installs:
  "stack_remove_atomic_sched env i s = (p, s') \<Longrightarrow> p \<noteq> 0 \<Longrightarrow>
     \<exists>h \<in> set (global_freeheap s i # env). global_freeheap s' i = stack_remove_atomic_new s h
        \<and> p = GET_PTR (nxt h)"
proof (induction env arbitrary: s)
  case Nil
  then show ?case
    by (subst (asm) stack_remove_atomic_sched.simps)
       (auto simp: Let_def ATOMIC_CAS_def split: if_splits)
next
  case (Cons e env)
  let ?old = "global_freeheap s i"
  from Cons.prems have nf: "nxt ?old \<noteq> 0"
    by (subst (asm) stack_remove_atomic_sched.simps) (auto simp: Let_def split: if_splits)
  show ?case
  proof (cases "e = ?old")
    case True
    with Cons.prems nf show ?thesis
      by (subst (asm) stack_remove_atomic_sched.simps)
         (auto simp: Let_def ATOMIC_CAS_def)
  next
    case False
    define s2 where "s2 = s\<lparr>global_freeheap := (global_freeheap s)(i := e)\<rparr>"
    from False Cons.prems nf have "stack_remove_atomic_sched env i s2 = (p, s')"
      by (subst (asm) stack_remove_atomic_sched.simps)
         (auto simp: Let_def ATOMIC_CAS_def s2_def)
    from Cons.IH[OF this Cons.prems(2)]
    have "\<exists>h \<in> set (e # env). global_freeheap s' i = stack_remove_atomic_new s2 h \<and> p = GET_PTR (nxt h)"
      by (simp add: s2_def)
    moreover have "\<And>h. stack_remove_atomic_new s2 h = stack_remove_atomic_new s h"
      by (rule remove_new_pages) (simp add: s2_def)
    ultimately show ?thesis by auto
  qed
qed

text \<open>
  C8. Every successful compare-and-swap of \<open>stack_insert_atomic\<close> and of
  \<open>stack_remove_atomic\<close> installs a head whose \<open>state\<close> field is the state of the head
  that it replaces plus one, modulo 2 ^ 12. This holds for one round of either loop
  against any current head \<open>cur\<close>, and so for the loops under every schedule of the other
  threads: the head that a successful push or pop leaves is the new head formed from one
  of the heads observed, with that head's state plus one.
\<close>

theorem atomic_stack_state_advances:
  "(ATOMIC_CAS cur (dq_both (stack_insert_atomic_new old_head page)) (dq_both old_head) = (True, w)
      \<longrightarrow> state (dq_of w) = state (dq_of cur) + 1
        \<and> unat (state (dq_of w)) = (unat (state (dq_of cur)) + 1) mod 2 ^ 12)
   \<and> (ATOMIC_CAS cur (dq_both (stack_remove_atomic_new s old_head)) (dq_both old_head) = (True, w)
      \<longrightarrow> state (dq_of w) = state (dq_of cur) + 1
        \<and> unat (state (dq_of w)) = (unat (state (dq_of cur)) + 1) mod 2 ^ 12)
   \<and> (stack_insert_atomic_sched env i page s = (True, s')
      \<longrightarrow> (\<exists>h \<in> set (global_freeheap s i # env).
             global_freeheap s' i = stack_insert_atomic_new h page
           \<and> state (global_freeheap s' i) = state h + 1))
   \<and> (stack_remove_atomic_sched env i s = (p, s') \<and> p \<noteq> 0
      \<longrightarrow> (\<exists>h \<in> set (global_freeheap s i # env).
             global_freeheap s' i = stack_remove_atomic_new s h
           \<and> state (global_freeheap s' i) = state h + 1))"
proof (intro conjI impI)
  assume "stack_insert_atomic_sched env i page s = (True, s')"
  from insert_sched_installs[OF this]
  show "\<exists>h \<in> set (global_freeheap s i # env).
             global_freeheap s' i = stack_insert_atomic_new h page
           \<and> state (global_freeheap s' i) = state h + 1"
    by (auto simp: stack_insert_atomic_new_def)
next
  assume "stack_remove_atomic_sched env i s = (p, s') \<and> p \<noteq> 0"
  then have "\<exists>h \<in> set (global_freeheap s i # env). global_freeheap s' i = stack_remove_atomic_new s h
        \<and> p = GET_PTR (nxt h)"
    using remove_sched_installs by blast
  then show "\<exists>h \<in> set (global_freeheap s i # env).
             global_freeheap s' i = stack_remove_atomic_new s h
           \<and> state (global_freeheap s' i) = state h + 1"
    by (auto simp: stack_remove_atomic_new_def)
qed (auto dest!: CAS_success simp: stack_insert_atomic_new_def stack_remove_atomic_new_def unat_word_ariths)


theorem atomic_stack_state_advances_witness:
  "state (stack_insert_atomic_new \<lparr>nxt = 0, count = 0, state = 4095\<rparr> 0x10000000) = 0
   \<and> state (stack_remove_atomic_new example_state \<lparr>nxt = 5, count = 1, state = 4095\<rparr>) = 0
   \<and> state (global_freeheap (snd (stack_insert_atomic_sched [] 0 0x10000000 example_state)) 0) = 1
   \<and> state (global_freeheap (snd (stack_remove_atomic_sched [] 0
         (snd (stack_insert_atomic_sched [] 0 0x10000000 example_state)))) 0) = 2"
proof -
  define h1 :: dq_ct_node where "h1 = \<lparr>nxt = 0, count = 0, state = 4095\<rparr>"
  define h2 :: dq_ct_node where "h2 = \<lparr>nxt = 5, count = 1, state = 4095\<rparr>"
  define s1 where "s1 = snd (stack_insert_atomic_sched [] 0 0x10000000 example_state)"
  define s2 where "s2 = snd (stack_remove_atomic_sched [] 0 s1)"
  define p where "p = fst (stack_remove_atomic_sched [] 0 s1)"
  have c1: "ATOMIC_CAS (dq_both h1) (dq_both (stack_insert_atomic_new h1 0x10000000)) (dq_both h1)
              = (True, dq_both (stack_insert_atomic_new h1 0x10000000))"
    by (simp add: ATOMIC_CAS_def)
  have c2: "ATOMIC_CAS (dq_both h2) (dq_both (stack_remove_atomic_new example_state h2)) (dq_both h2)
              = (True, dq_both (stack_remove_atomic_new example_state h2))"
    by (simp add: ATOMIC_CAS_def)
  have "fst (stack_insert_atomic_sched [] 0 0x10000000 example_state) = True" by code_simp
  then have i1: "stack_insert_atomic_sched [] 0 0x10000000 example_state = (True, s1)"
    unfolding s1_def by (metis prod.collapse)
  have "fst (stack_remove_atomic_sched [] 0
           (snd (stack_insert_atomic_sched [] 0 0x10000000 example_state))) \<noteq> 0" by code_simp
  then have r: "stack_remove_atomic_sched [] 0 s1 = (p, s2) \<and> p \<noteq> 0"
    unfolding s1_def s2_def p_def by simp
  have g0: "state (global_freeheap example_state 0) = 0" by code_simp
  have g1: "state (global_freeheap s1 0) = 1" unfolding s1_def by code_simp
  from atomic_stack_state_advances
         [where cur="dq_both h1" and old_head=h1 and page="0x10000000"
            and w="dq_both (stack_insert_atomic_new h1 0x10000000)"
            and s=example_state and env="[]" and i=0 and s'=s1 and p=p]
       c1 i1 g0
  have a: "state (stack_insert_atomic_new h1 0x10000000) = state h1 + 1 \<and> state (global_freeheap s1 0) = 1"
    by auto
  from atomic_stack_state_advances
         [where cur="dq_both h2" and old_head=h2 and page="0x10000000"
            and w="dq_both (stack_remove_atomic_new example_state h2)"
            and s=s1 and env="[]" and i=0 and s'=s2 and p=p]
       r g1
  have b: "state (global_freeheap s2 0) = 2"
    by auto
  from atomic_stack_state_advances
         [where cur="dq_both h2" and old_head=h2 and page="0x10000000"
            and w="dq_both (stack_remove_atomic_new example_state h2)"
            and s=example_state and env="[]" and i=0 and s'=s1 and p=p]
       c2 
  have c: "state (stack_remove_atomic_new example_state h2) = state h2 + 1"
    by auto
  from a b c show ?thesis
    unfolding h1_def h2_def s1_def s2_def by simp
qed

section \<open>The round trip between class sizes and class indices\<close>

lemma class_sizes_bounds:
  assumes "c < 64"
  shows "16 \<le> class_sizes ! c" "class_sizes ! c \<le> 2048" "class_sizes ! c mod 16 = 0"
proof -
  consider "c < 32" | "32 \<le> c" "c < 48" | "48 \<le> c" "c < 64"
    using assms by linarith
  then have "16 \<le> class_sizes ! c \<and> class_sizes ! c \<le> 2048 \<and> class_sizes ! c mod 16 = 0"
    by cases (simp_all add: class_sizes_closed mod_simps)
  then show "16 \<le> class_sizes ! c" "class_sizes ! c \<le> 2048" "class_sizes ! c mod 16 = 0"
    by simp_all
qed





section \<open>Freeing the last object of a page-block\<close>

lemma set_page_simps [simp]:
  "pages (set_page p f s) = (pages s)(p := f (pages s p))"
  "mem (set_page p f s) = mem s"
  "thread_data (set_page p f s) = thread_data s"
  "global_freeheap (set_page p f s) = global_freeheap s"
  "global_thread_id (set_page p f s) = global_thread_id s"
  "os_brk (set_page p f s) = os_brk s"
  "os_limit (set_page p f s) = os_limit s"
  "os_unmapped (set_page p f s) = os_unmapped s"
  by (simp_all add: set_page_def)

lemma set_heap_simps [simp]:
  "pages (set_heap c h s) = pages s"
  "mem (set_heap c h s) = mem s"
  "private_heap (thread_data (set_heap c h s)) = (private_heap (thread_data s))(c := h)"
  "top' (thread_data (set_heap c h s)) = top' (thread_data s)"
  "thread_id (thread_data (set_heap c h s)) = thread_id (thread_data s)"
  "global_freeheap (set_heap c h s) = global_freeheap s"
  "global_thread_id (set_heap c h s) = global_thread_id s"
  "os_brk (set_heap c h s) = os_brk s"
  "os_limit (set_heap c h s) = os_limit s"
  "os_unmapped (set_heap c h s) = os_unmapped s"
  by (simp_all add: set_heap_def)

lemma push_simps [simp]:
  "pages (STACK_PUSH_OBJECT p obj off s) =
     (pages s)(p := (pages s p)\<lparr>freed := off, allocated_objects := allocated_objects (pages s p) - 1\<rparr>)"
  "mem (STACK_PUSH_OBJECT p obj off s) = store32 (mem s) obj (freed (pages s p))"
  "thread_data (STACK_PUSH_OBJECT p obj off s) = thread_data s"
  "global_freeheap (STACK_PUSH_OBJECT p obj off s) = global_freeheap s"
  "global_thread_id (STACK_PUSH_OBJECT p obj off s) = global_thread_id s"
  "os_brk (STACK_PUSH_OBJECT p obj off s) = os_brk s"
  "os_limit (STACK_PUSH_OBJECT p obj off s) = os_limit s"
  "os_unmapped (STACK_PUSH_OBJECT p obj off s) = os_unmapped s"
  by (simp_all add: STACK_PUSH_OBJECT_def Let_def)

lemma write_node_simps [simp]:
  "pages (write_node p d s) = (pages s)(p := (pages s p)\<lparr>next_pg := dq_both d\<rparr>)"
  "mem (write_node p d s) = mem s"
  "thread_data (write_node p d s) = thread_data s"
  "global_freeheap (write_node p d s) = global_freeheap s"
  "global_thread_id (write_node p d s) = global_thread_id s"
  "os_brk (write_node p d s) = os_brk s"
  "os_limit (write_node p d s) = os_limit s"
  "os_unmapped (write_node p d s) = os_unmapped s"
  by (simp_all add: write_node_def)

lemma word_succ_neq [simp]: "(x :: 'a::len word) + 1 \<noteq> x" "x \<noteq> x + 1"
  by simp_all

subsection \<open>Lists of page-blocks\<close>












subsection \<open>Returning a page-block to the supply\<close>

lemma node_count_neq [simp]:
  "(r :: dq_ct_node) \<noteq> r\<lparr>count := count r + 1, nxt := x\<rparr>"
  "r \<noteq> stack_insert_atomic_new r page"
proof -
  show "r \<noteq> r\<lparr>count := count r + 1, nxt := x\<rparr>"
    by (rule notI, drule arg_cong[where f=count]) simp
  show "r \<noteq> stack_insert_atomic_new r page"
    by (rule notI, drule arg_cong[where f=count]) (simp add: stack_insert_atomic_new_def)
qed

lemma node_count_neq' [simp]: "stack_insert_atomic_new r page \<noteq> r"
  using node_count_neq(2)[of r page] by (rule not_sym)





section \<open>Evaluating the model on the example state\<close>

lemmas model_defs = malloc_ptr_def malloc_state_def malloc_def example_state_def init_state_def thread_data_struct_def
  SMALL_ALLOCATION_LIMIT_def PAGE_SZ_def PAGE_BITS_def PAGE_MULTIPLIER_def
  get_pageblock_def IDX_BY_PAGE_SZ_def stack_remove_def stack_remove_atomic_def 
  mmap_wrap_def page_internal_init_def insert_front_dq_def page_internal_alloc_def
  header_write_small_def WRITE_HEADER_def ALIGN_MASK_def DEFAULT_ALLIGN_def
  HEADER_SMALL_def HEADER_VALID_def HEADER_PAGE_OFFSET_SET_def SECURITY_OPCODE_def HEADER_VALID_MASK_def
  GEN_MASK_def HEADER_SECURITY_BITS_def HEADER_TOTAL_BITS_def HEADER_TYPE_BITS_def HEADER_PAGE_OFF_BITS_def
  HEADER_PAGE_OFF_SHIFT_def zero_page_def set_heap_def set_page_def

lemma decode_8: "class_size_decode 8 = Some (0, 8)" by code_simp

lemmas run_defs = model_defs malloc_walk.simps stack_remove_atomic_sched.simps Let_def class_sizes_def






section \<open>Adoption of an orphaned page-block by a remote free\<close>

lemma ucast_tid_roundtrip:
  "unat (tid :: 32 word) < 2 ^ 24 \<Longrightarrow> (ucast (ucast tid :: 24 word) :: 32 word) = tid"
  by (rule word_unat_eq_iff[THEN iffD2])
     (simp add: unsigned_ucast_eq unsigned_take_bit_eq take_bit_nat_eq_self)

lemma ucast_orphan: "(ucast ORPHAN_ID :: 32 word) = 0xFFFFFF"
  by (simp add: ORPHAN_ID_def)

lemma orphan_not_tid:
  "unat (tid :: 32 word) < 2 ^ 24 - 1 \<Longrightarrow> (ucast ORPHAN_ID :: 32 word) \<noteq> tid"
  unfolding ucast_orphan by (auto simp: word_unat_eq_iff)

lemma remote_free_new_orphan:
  "rf_thread_id old_head = ORPHAN_ID \<Longrightarrow>
     remote_free_new old_head off tid =
       (True, \<lparr>rf_count = rf_count old_head + 1, remotely_freed = ucast off, rf_thread_id = ucast tid\<rparr>)"
  by (simp add: remote_free_new_def Let_def)

lemma remote_free_new_owned:
  "rf_thread_id old_head \<noteq> ORPHAN_ID \<Longrightarrow>
     remote_free_new old_head off tid =
       (False, \<lparr>rf_count = rf_count old_head + 1, remotely_freed = ucast off,
                rf_thread_id = rf_thread_id old_head\<rparr>)"
  by (simp add: remote_free_new_def Let_def)

lemma remote_free_sched_nil:
  "remote_free_sched [] page obj off tid s =
     (fst (remote_free_new (sync (pages s page)) off tid),
      set_page page (\<lambda>p. p\<lparr>sync := snd (remote_free_new (sync (pages s page)) off tid)\<rparr>)
        (s\<lparr>mem := store64 (mem s) obj (rfid_both (sync (pages s page)))\<rparr>))"
  by (subst remote_free_sched.simps)
     (simp add: Let_def ATOMIC_CAS_def split: prod.splits)


lemma insert_front_simps [simp]:
  "head (private_heap (thread_data (insert_front_dq c page s)) c) = page"
  "sync (pages (insert_front_dq c page s) q) = sync (pages s q)"
  "mem (insert_front_dq c page s) = mem s"
  "thread_id (thread_data (insert_front_dq c page s)) = thread_id (thread_data s)"
  "top' (thread_data (insert_front_dq c page s)) = top' (thread_data s)"
  "global_freeheap (insert_front_dq c page s) = global_freeheap s"
  "os_unmapped (insert_front_dq c page s) = os_unmapped s"
  by (simp_all add: insert_front_dq_def Let_def)

lemma insert_front_next:
  "next_pg (pages (insert_front_dq c page s) page) = head (private_heap (thread_data s) c)"
  by (simp add: insert_front_dq_def Let_def)

lemma page_internal_free_orphan:
  assumes "rf_thread_id (sync (pages s page)) = ORPHAN_ID" "unat tid < 2 ^ 24 - 1"
  shows "page_internal_free c page obj tid s =
     Some (insert_front_dq c page
            (set_page page
               (\<lambda>p. p\<lparr>sync := \<lparr>rf_count = rf_count (sync (pages s page)) + 1,
                                remotely_freed = ucast (ucast (obj - page) :: 32 word),
                                rf_thread_id = ucast tid\<rparr>\<rparr>)
               (s\<lparr>mem := store64 (mem s) obj (rfid_both (sync (pages s page)))\<rparr>)))"
proof -
  have n: "(ucast ORPHAN_ID :: 32 word) \<noteq> tid" using assms(2) by (rule orphan_not_tid)
  have r: "(ucast (ucast tid :: 24 word) :: 32 word) = tid"
    using assms(2) by (intro ucast_tid_roundtrip) simp
  show ?thesis
    using assms(1) n r
    by (simp add: page_internal_free_def page_internal_free_sched_def Let_def
          remote_free_sched_nil remote_free_new_orphan)
qed

text \<open>
  C9. A thread whose id fits the 24-bit owner field (it is below \<open>ORPHAN_ID\<close>) frees a
  small object of a page-block whose owner field reads \<open>ORPHAN_ID\<close>. One
  compare-and-swap on the synchronisation word installs the thread as owner, makes the
  offset of the freed slot the head of the remote LIFO and adds one to the count; the
  first eight bytes of the object keep the word that was replaced, which chains to the
  former remote head. The thread then links the block at the front of its own list of
  the block's class: the block is the head, and its \<open>next\<close> is the former head.
\<close>

theorem remote_free_adopts_orphan:
  assumes "obj \<noteq> 0"
      and "object_type_decode s obj = Some (CLASS_SMALL, off)"
      and "page = GET_PAGE_START obj off"
      and "class_size_decode (ucast (object_size (pages s page)) - 1) = Some (c, pn)"
      and "rf_thread_id (sync (pages s page)) = ORPHAN_ID"
      and "unat (thread_id (thread_data s)) < 2 ^ 24 - 1"
  shows "\<exists>s'. free obj s = Some (Inr s')
           \<and> sync (pages s' page) =
                \<lparr>rf_count = rf_count (sync (pages s page)) + 1,
                 remotely_freed = ucast (ucast (obj - page) :: 32 word),
                 rf_thread_id = ucast (thread_id (thread_data s))\<rparr>
           \<and> ucast (rf_thread_id (sync (pages s' page))) = thread_id (thread_data s)
           \<and> load64 (mem s') obj = rfid_both (sync (pages s page))
           \<and> head (private_heap (thread_data s') (unat c)) = page
           \<and> next_pg (pages s' page) = head (private_heap (thread_data s) (unat c))
           \<and> remote_free_new (sync (pages s page)) (ucast (obj - page)) (thread_id (thread_data s))
                = (True, sync (pages s' page))
           \<and> ATOMIC_CAS (rfid_both (sync (pages s page))) (rfid_both (sync (pages s' page)))
                 (rfid_both (sync (pages s page))) = (True, rfid_both (sync (pages s' page)))"
proof -
  let ?tid = "thread_id (thread_data s)"
  let ?new = "\<lparr>rf_count = rf_count (sync (pages s page)) + 1,
                 remotely_freed = ucast (ucast (obj - page) :: 32 word),
                 rf_thread_id = ucast ?tid\<rparr>"
  let ?s' = "insert_front_dq (unat c) page
            (set_page page (\<lambda>p. p\<lparr>sync := ?new\<rparr>)
               (s\<lparr>mem := store64 (mem s) obj (rfid_both (sync (pages s page)))\<rparr>))"
  have r: "(ucast (ucast ?tid :: 24 word) :: 32 word) = ?tid"
    using assms(6) by (intro ucast_tid_roundtrip) simp
  have f: "free obj s = Some (Inr ?s')"
    using assms(1,2,4) page_internal_free_orphan[OF assms(5,6), of "unat c" obj]
    by (simp add: free_def Let_def CLASS_SMALL_def flip: assms(3))
  have "sync (pages ?s' page) = ?new" by simp
  moreover have "load64 (mem ?s') obj = rfid_both (sync (pages s page))" by simp
  moreover have "head (private_heap (thread_data ?s') (unat c)) = page" by simp
  moreover have "next_pg (pages ?s' page) = head (private_heap (thread_data s) (unat c))"
    by (simp add: insert_front_next)
  moreover have "remote_free_new (sync (pages s page)) (ucast (obj - page)) ?tid = (True, ?new)"
    using assms(5) by (rule remote_free_new_orphan)
  ultimately show ?thesis using f r by (simp add: ATOMIC_CAS_def)
qed


lemmas header_defs = object_type_decode_def GET_HEADER_def unmapped_def HEADER_PAGE_OFFSET_GET_def
  HEADER_IS_BLOCK_VALID_def HEADER_PAGE_GET_TYPE_def HEADER_PAGE_OFF_MASK_def HEADER_TYPE_MASK_def
  HEADER_TYPE_SHIFT_def HEADER_VALID_def HEADER_VALID_MASK_def GEN_MASK_def SECURITY_OPCODE_def
  HEADER_SECURITY_BITS_def HEADER_TOTAL_BITS_def HEADER_TYPE_BITS_def HEADER_PAGE_OFF_BITS_def
  HEADER_PAGE_OFF_SHIFT_def PAGE_MULTIPLIER_def CLASS_SMALL_def CLASS_LARGE_def
  GET_PAGE_START_def GET_PAGE_BOUNDARY_def ALIGN_MASK_def PAGE_SZ_def PAGE_BITS_def

lemma decode_15: "class_size_decode 15 = Some (0, 8)" by code_simp

lemma orphaned_block_facts:
  "object_type_decode (orphaned_block_state n) 0x10000030 = Some (CLASS_SMALL, 0)"
  "object_size (pages (orphaned_block_state n) 0x10000000) = 16"
  "rf_thread_id (sync (pages (orphaned_block_state n) 0x10000000)) = ORPHAN_ID"
  "rf_count (sync (pages (orphaned_block_state n) 0x10000000)) = 0"
  "thread_id (thread_data (orphaned_block_state n)) = n + 1"
  "head (private_heap (thread_data (orphaned_block_state n)) 0) = 0"
  by (simp_all add: orphaned_block_state_def run_defs header_defs decode_8 LOG2_vals)

lemma page_start_example: "GET_PAGE_START 0x10000030 0 = 0x10000000"
  by (simp add: header_defs)

theorem remote_free_adopts_orphan_witness:
  "ucast (rf_thread_id (sync (pages (free_state 0x10000030 (orphaned_block_state 1)) 0x10000000)))
     = (2 :: 32 word)
   \<and> remotely_freed (sync (pages (free_state 0x10000030 (orphaned_block_state 1)) 0x10000000)) = 0x30
   \<and> rf_count (sync (pages (free_state 0x10000030 (orphaned_block_state 1)) 0x10000000)) = 1
   \<and> head (private_heap (thread_data (free_state 0x10000030 (orphaned_block_state 1))) 0) = 0x10000000"
proof -
  let ?s = "orphaned_block_state 1"
  have h1: "(0x10000030 :: 64 word) \<noteq> 0" by simp
  have h2: "object_type_decode ?s 0x10000030 = Some (CLASS_SMALL, 0)" by (rule orphaned_block_facts)
  have h3: "(0x10000000 :: 64 word) = GET_PAGE_START 0x10000030 0" by (simp add: page_start_example)
  have h4: "class_size_decode (ucast (object_size (pages ?s 0x10000000)) - 1) = Some (0, 8)"
    by (simp add: orphaned_block_facts decode_15)
  have h5: "rf_thread_id (sync (pages ?s 0x10000000)) = ORPHAN_ID" by (rule orphaned_block_facts)
  have h6: "unat (thread_id (thread_data ?s)) < 2 ^ 24 - 1" by (simp add: orphaned_block_facts)
  from remote_free_adopts_orphan[OF h1 h2 h3 h4 h5 h6]
  obtain s' where f: "free 0x10000030 ?s = Some (Inr s')"
    and s: "sync (pages s' 0x10000000) =
                \<lparr>rf_count = rf_count (sync (pages ?s 0x10000000)) + 1,
                 remotely_freed = ucast (ucast (0x10000030 - 0x10000000 :: 64 word) :: 32 word),
                 rf_thread_id = ucast (thread_id (thread_data ?s))\<rparr>"
    and h: "head (private_heap (thread_data s') (unat (0 :: 32 word))) = 0x10000000"
    by blast
  from f have "free_state 0x10000030 ?s = s'" by (simp add: free_state_def)
  with s h show ?thesis by (simp add: orphaned_block_facts)
qed

theorem remote_free_wide_thread_id_counterexample:
  "rf_thread_id (sync (pages (orphaned_block_state 0x1000004) 0x10000000)) = ORPHAN_ID
   \<and> thread_id (thread_data (orphaned_block_state 0x1000004)) = 0x1000005
   \<and> ucast (rf_thread_id (sync (pages (free_state 0x10000030 (orphaned_block_state 0x1000004)) 0x10000000)))
        = (5 :: 32 word)
   \<and> head (private_heap (thread_data (free_state 0x10000030 (orphaned_block_state 0x1000004))) 0) = 0"
proof -
  let ?s = "orphaned_block_state 0x1000004"
  have w: "(16777221 :: 24 word) = 5" by simp
  have "free 0x10000030 ?s =
     Some (Inr (set_page 0x10000000
        (\<lambda>p. p\<lparr>sync := \<lparr>rf_count = 1, remotely_freed = 0x30, rf_thread_id = 5\<rparr>\<rparr>)
        (?s\<lparr>mem := store64 (mem ?s) 0x10000030 (rfid_both (sync (pages ?s 0x10000000)))\<rparr>)))"
    by (simp add: free_def Let_def orphaned_block_facts page_start_example decode_15
          page_internal_free_def page_internal_free_sched_def remote_free_sched_nil
          remote_free_new_orphan ucast_orphan w)
  then show ?thesis
    by (simp add: free_state_def orphaned_block_facts)
qed

section \<open>Reallocation\<close>

lemma HEADER_PAGE_GET_TYPE_bit:
  "HEADER_PAGE_GET_TYPE x = (if bit x 7 then 1 else 0)"
proof -
  have "drop_bit 7 (x AND 128) = (if bit x 7 then 1 else (0 :: 8 word))"
  proof (rule bit_word_eqI)
    fix n assume "n < LENGTH(8)"
    show "bit (drop_bit 7 (x AND 128)) n = bit (if bit x 7 then 1 else (0 :: 8 word)) n"
    proof (cases "n = 0")
      case True
      then show ?thesis by (simp add: bit_simps)
    next
      case False
      then have "\<not> 7 + n < 8" by simp
      with False show ?thesis
        by (auto simp: bit_simps dest: bit_imp_le_length)
    qed
  qed
  then show ?thesis
    by (simp add: HEADER_PAGE_GET_TYPE_def HEADER_TYPE_SHIFT_def HEADER_TYPE_MASK_def)
qed

lemma object_type_cases:
  "object_type_decode s obj =
     (if unmapped s (obj - 1) then None
      else Some (if \<not> HEADER_IS_BLOCK_VALID (mem s (obj - 1)) then - 1
                 else if bit (mem s (obj - 1)) 7 then CLASS_LARGE else CLASS_SMALL,
                 HEADER_PAGE_OFFSET_GET (mem s (obj - 1))))"
  by (simp add: object_type_decode_def GET_HEADER_def Let_def HEADER_PAGE_GET_TYPE_bit
        CLASS_LARGE_def CLASS_SMALL_def)

lemma realloc_shrink:
  assumes "obj \<noteq> 0" "object_type_decode s obj = Some (t, off)" "t = CLASS_SMALL \<or> t = CLASS_LARGE"
    and "sz < (if t = CLASS_SMALL
               then ucast (object_size (pages s (GET_PAGE_START obj off))) - 1
               else GET_LARGER_ALLOC_SZ s obj)"
  shows "realloc obj sz s = Some (Inr (obj, s))"
  using assms by (auto simp: realloc_def Let_def)

lemma realloc_move:
  assumes "obj \<noteq> 0" "object_type_decode s obj = Some (CLASS_SMALL, off)"
    and "old_size = ucast (object_size (pages s (GET_PAGE_START obj off))) - 1"
    and "old_size \<le> sz"
  shows "realloc obj sz s =
           (case malloc sz s of
              None \<Rightarrow> None
            | Some (ret, s1) \<Rightarrow>
                if ret = 0 then Some (Inr (0, s1))
                else (case free obj (s1\<lparr>mem := memcpy (mem s1) ret obj old_size\<rparr>) of
                        None \<Rightarrow> None
                      | Some (Inl a) \<Rightarrow> Some (Inl a)
                      | Some (Inr s2) \<Rightarrow> Some (Inr (ret, s2))))"
proof -
  have n: "\<not> sz < old_size" using assms(4) by (simp add: not_less)
  show ?thesis
    using assms(1,2) n unfolding assms(3)
    by (auto simp: realloc_def Let_def CLASS_SMALL_def CLASS_LARGE_def
             split: option.splits sum.splits Option.bind_splits)
qed

lemma memcpy_copies:
  "i < n \<Longrightarrow> memcpy m dst src n (dst + i) = m (src + i)"
  by (simp add: memcpy_def)

text \<open>
  C2 (amended). \<open>obj\<close> is a non-null pointer of a small object with a valid header, and
  \<open>old_size\<close> is its payload capacity (the \<open>object_size\<close> of its page-block minus the
  header byte). For every \<open>sz\<close> below \<open>old_size\<close>, \<open>realloc\<close> returns \<open>obj\<close> and leaves
  the state as it was. For \<open>sz\<close> equal to \<open>old_size\<close> (or above it) the test
  \<open>old_sz > sz\<close> fails and \<open>realloc\<close> calls \<open>malloc sz\<close>: if that returns the null
  pointer, \<open>realloc\<close> returns the null pointer and does not touch \<open>obj\<close>; otherwise it
  copies \<open>old_size\<close> bytes from \<open>obj\<close> to the new object, frees \<open>obj\<close> and returns the new
  pointer.
\<close>

theorem realloc_smaller_returns_same:
  assumes "obj \<noteq> 0"
      and "object_type_decode s obj = Some (CLASS_SMALL, off)"
      and "old_size = ucast (object_size (pages s (GET_PAGE_START obj off))) - 1"
  shows "(sz < old_size \<longrightarrow> realloc obj sz s = Some (Inr (obj, s)))
       \<and> (old_size \<le> sz \<longrightarrow>
            realloc obj sz s =
              (case malloc sz s of
                 None \<Rightarrow> None
               | Some (ret, s1) \<Rightarrow>
                   if ret = 0 then Some (Inr (0, s1))
                   else (case free obj (s1\<lparr>mem := memcpy (mem s1) ret obj old_size\<rparr>) of
                           None \<Rightarrow> None
                         | Some (Inl a) \<Rightarrow> Some (Inl a)
                         | Some (Inr s2) \<Rightarrow> Some (Inr (ret, s2))))
          \<and> (\<forall>m ret i. i < old_size \<longrightarrow> memcpy m ret obj old_size (ret + i) = m (obj + i)))"
proof (intro conjI impI allI)
  assume "sz < old_size"
  then show "realloc obj sz s = Some (Inr (obj, s))"
    using realloc_shrink[OF assms(1,2)] assms(3) by simp
next
  assume "old_size \<le> sz"
  then show "realloc obj sz s =
              (case malloc sz s of
                 None \<Rightarrow> None
               | Some (ret, s1) \<Rightarrow>
                   if ret = 0 then Some (Inr (0, s1))
                   else (case free obj (s1\<lparr>mem := memcpy (mem s1) ret obj old_size\<rparr>) of
                           None \<Rightarrow> None
                         | Some (Inl a) \<Rightarrow> Some (Inl a)
                         | Some (Inr s2) \<Rightarrow> Some (Inr (ret, s2))))"
    by (rule realloc_move[OF assms])
next
  fix m ret i
  assume "i < old_size"
  then show "memcpy m ret obj old_size (ret + i) = m (obj + i)" by (rule memcpy_copies)
qed

subsection \<open>Reallocation to size 0\<close>

lemma mult_page_ge:
  assumes "(pn :: 64 word) * 4096 \<noteq> 0"
  shows "4096 \<le> uint (pn * 4096)" "pn \<noteq> 0"
proof -
  have "unat (pn * 4096) = (unat pn * 4096) mod 2 ^ 64"
    by (simp add: unat_word_ariths)
  then have "unat (pn * 4096) mod 4096 = ((unat pn * 4096) mod 2 ^ 64) mod 4096" by simp
  also have "\<dots> = (unat pn * 4096) mod 4096"
    by (rule mod_mod_cancel) simp
  also have "\<dots> = 0" by simp
  finally have m: "unat (pn * 4096) mod 4096 = 0" .
  have "unat (pn * 4096) \<noteq> 0" using assms by (simp add: unat_eq_0)
  with m have "4096 \<le> unat (pn * 4096)" by (meson dvd_imp_le mod_eq_0_iff_dvd not_gr_zero)
  then have "int 4096 \<le> int (unat (pn * 4096))" by (simp only: of_nat_le_iff)
  then show "4096 \<le> uint (pn * 4096)" unfolding uint_nat by (simp only: of_nat_numeral)
  show "pn \<noteq> 0" using assms by auto
qed

lemma not_unmapped_above_brk:
  assumes "unmapped_below_brk s" "uint (os_brk s) \<le> uint a"
  shows "\<not> unmapped s a"
  using assms
  by (auto simp: unmapped_below_brk_def unmapped_def list_all_iff list_ex_iff)

lemma load64_header_byte:
  "load64 (m(a + 15 := v)) a = load64 m a"
proof -
  have "a + 15 \<noteq> a" "a + 15 \<noteq> a + 1" "a + 15 \<noteq> a + 2" "a + 15 \<noteq> a + 3"
       "a + 15 \<noteq> a + 4" "a + 15 \<noteq> a + 4 + 1" "a + 15 \<noteq> a + 4 + 2" "a + 15 \<noteq> a + 4 + 3"
    by simp_all
  then show ?thesis unfolding load64_def load32_def by (simp only: fun_upd_other not_sym)
qed

lemma large_alloc_result:
  assumes "large_alloc sz s = (p, s1)" "p \<noteq> 0" "unmapped_below_brk s"
  shows "GET_LARGER_ALLOC_SZ s1 p = GET_PAGE_NUM (sz + 16)"
    "GET_LARGER_ALLOC_SZ s1 p \<noteq> 0"
    "object_type_decode s1 p = Some (CLASS_LARGE, 0)"
    "p = os_brk s + 16"
proof -
  let ?pn = "GET_PAGE_NUM (sz + 16)"
  let ?len = "?pn * 4096"
  let ?b = "os_brk s"
  have ok: "?len \<noteq> 0 \<and> \<not> uint (os_limit s) < uint ?b + uint ?len \<and> ?b \<noteq> 0"
    using assms(1,2)
    by (auto simp: large_alloc_def mmap_wrap_def Let_def LARGE_HEADER_SIZE_def PAGE_SZ_def PAGE_BITS_def
             split: if_splits)
  then have res: "p = ?b + 16"
    "s1 = header_write_large ?b ?pn (s\<lparr>os_brk := ?b + ?len\<rparr>)"
    using assms(1)
    by (auto simp: large_alloc_def mmap_wrap_def Let_def LARGE_HEADER_SIZE_def PAGE_SZ_def PAGE_BITS_def
             split: if_splits)
  show "p = os_brk s + 16" by (rule res(1))
  have m1: "mem s1 = (store64 (mem s) ?b ?pn)(?b + 15 := 0x83)"
    unfolding res(2)
    by (simp add: header_write_large_def WRITE_HEADER_def WRITE_LARGE_HEADER_SZ_def Let_def
          LARGE_HEADER_SIZE_def HEADER_LARGE_def HEADER_VALID_def SECURITY_OPCODE_def
          HEADER_VALID_MASK_def GEN_MASK_def HEADER_SECURITY_BITS_def HEADER_TOTAL_BITS_def
          HEADER_TYPE_BITS_def HEADER_PAGE_OFF_BITS_def PAGE_MULTIPLIER_def add.commute)
  have u1: "os_unmapped s1 = os_unmapped s"
    unfolding res(2)
    by (simp add: header_write_large_def WRITE_HEADER_def WRITE_LARGE_HEADER_SZ_def Let_def)
  show sz: "GET_LARGER_ALLOC_SZ s1 p = ?pn"
    unfolding GET_LARGER_ALLOC_SZ_def res(1) m1 LARGE_HEADER_SIZE_def
    by (simp add: load64_header_byte)
  show "GET_LARGER_ALLOC_SZ s1 p \<noteq> 0"
    unfolding sz using mult_page_ge(2)[of ?pn] ok by simp
  have ge: "4096 \<le> uint ?len" using mult_page_ge(1)[of ?pn] ok by simp
  have lt: "uint ?b + uint ?len \<le> uint (os_limit s)" using ok by simp
  have "uint (os_limit s) < 2 ^ 64" using uint_bounded[of "os_limit s"] by simp
  with ge lt have "uint ?b + 15 < 2 ^ 64" by linarith
  then have "uint (?b + 15) = uint ?b + 15"
    by (simp add: uint_word_ariths take_bit_int_eq_self)
  moreover have "p - 1 = ?b + 15" unfolding res(1) by simp
  ultimately have "uint ?b \<le> uint (p - 1)" by (simp only:)
  then have "\<not> unmapped s (p - 1)" by (rule not_unmapped_above_brk[OF assms(3)])
  then have nu: "\<not> unmapped s1 (p - 1)" by (simp add: unmapped_def u1)
  have hb: "mem s1 (p - 1) = 0x83" unfolding \<open>p - 1 = ?b + 15\<close> m1 by simp
  show "object_type_decode s1 p = Some (CLASS_LARGE, 0)"
    unfolding object_type_cases using nu hb
    by (simp add: HEADER_IS_BLOCK_VALID_def HEADER_VALID_def HEADER_VALID_MASK_def GEN_MASK_def
          SECURITY_OPCODE_def HEADER_SECURITY_BITS_def HEADER_TOTAL_BITS_def HEADER_TYPE_BITS_def
          HEADER_PAGE_OFF_BITS_def PAGE_MULTIPLIER_def HEADER_PAGE_OFFSET_GET_def
          HEADER_PAGE_OFF_MASK_def HEADER_PAGE_OFF_SHIFT_def)
qed


lemma small_old_size_pos:
  assumes "c < 64" "osz = (word_of_nat (class_sizes ! c) :: 16 word)"
  shows "0 < (ucast osz :: 64 word) - 1"
proof -
  have b: "16 \<le> class_sizes ! c" "class_sizes ! c \<le> 2048" using class_sizes_bounds[OF assms(1)] by simp_all
  have u: "unat (word_of_nat (class_sizes ! c) :: 16 word) = class_sizes ! c"
    using b by (simp add: unat_of_nat)
  have v: "unat (ucast (word_of_nat (class_sizes ! c) :: 16 word) :: 64 word) = class_sizes ! c"
    unfolding unsigned_ucast_eq u using b by (simp add: take_bit_nat_eq_self)
  have "(ucast (word_of_nat (class_sizes ! c) :: 16 word) :: 64 word) \<noteq> 1"
  proof
    assume "(ucast (word_of_nat (class_sizes ! c) :: 16 word) :: 64 word) = 1"
    then have "unat (ucast (word_of_nat (class_sizes ! c) :: 16 word) :: 64 word) = 1" by simp
    with v b show False by simp
  qed
  then show ?thesis unfolding assms(2) by (simp add: word_greater_zero_iff)
qed

lemma load64_cong:
  assumes "\<forall>a. a - b < 16 \<longrightarrow> m' a = m a"
  shows "load64 m' b = load64 m b" "m' (b + 15) = m (b + 15)"
proof -
  have e: "\<And>k. k < 16 \<Longrightarrow> m' (b + k) = m (b + k)" using assms by simp
  have "m' b = m b" using e[of 0] by simp
  moreover have "m' (b + 1) = m (b + 1)" "m' (b + 2) = m (b + 2)" "m' (b + 3) = m (b + 3)"
    "m' (b + 4) = m (b + 4)" "m' (b + 4 + 1) = m (b + 4 + 1)" "m' (b + 4 + 2) = m (b + 4 + 2)"
    "m' (b + 4 + 3) = m (b + 4 + 3)"
    using e[of 1] e[of 2] e[of 3] e[of 4] e[of 5] e[of 6] e[of 7] by (simp_all add: add.assoc)
  ultimately show "load64 m' b = load64 m b" unfolding load64_def load32_def by (simp only:)
  show "m' (b + 15) = m (b + 15)" using e[of 15] by simp
qed

text \<open>
  C10. \<open>realloc\<close> to size 0 returns the pointer it was given and leaves the state as it
  was, because the old size that it reads is positive. For a small object with a valid
  header in a page-block of one of the 64 class sizes, the old size is the class size
  minus the header byte, at least 15. For a large object, \<open>malloc\<close> has stored the number
  of pages of the mapping, which is not 0, before the payload: this holds in the state that
  \<open>malloc\<close> returns, and in every later state in which the 16 bytes before the payload
  are as \<open>malloc\<close> left them and still mapped. \<open>malloc 0\<close> returns the null pointer.
\<close>

theorem realloc_zero_returns_same:
  "(\<forall>obj off. obj \<noteq> 0 \<and> object_type_decode s obj = Some (CLASS_SMALL, off)
        \<and> (\<exists>c < 64. object_size (pages s (GET_PAGE_START obj off)) = word_of_nat (class_sizes ! c))
      \<longrightarrow> 0 < (ucast (object_size (pages s (GET_PAGE_START obj off))) :: 64 word) - 1
        \<and> realloc obj 0 s = Some (Inr (obj, s)))
   \<and> (\<forall>sz p s1. sz \<noteq> 0 \<and> \<not> sz < word_of_nat SMALL_ALLOCATION_LIMIT \<and> unmapped_below_brk s
        \<and> malloc sz s = Some (p, s1) \<and> p \<noteq> 0
      \<longrightarrow> object_type_decode s1 p = Some (CLASS_LARGE, 0)
        \<and> GET_LARGER_ALLOC_SZ s1 p \<noteq> 0
        \<and> realloc p 0 s1 = Some (Inr (p, s1))
        \<and> (\<forall>s2. (\<forall>a. a - (p - 16) < 16 \<longrightarrow> mem s2 a = mem s1 a) \<and> \<not> unmapped s2 (p - 1)
              \<longrightarrow> realloc p 0 s2 = Some (Inr (p, s2))))
   \<and> malloc 0 s = Some (0, s)"
proof (intro conjI allI impI)
  fix obj off
  assume h: "obj \<noteq> 0 \<and> object_type_decode s obj = Some (CLASS_SMALL, off)
        \<and> (\<exists>c < 64. object_size (pages s (GET_PAGE_START obj off)) = word_of_nat (class_sizes ! c))"
  then obtain c where c: "c < 64"
      "object_size (pages s (GET_PAGE_START obj off)) = word_of_nat (class_sizes ! c)" by blast
  show pos: "0 < (ucast (object_size (pages s (GET_PAGE_START obj off))) :: 64 word) - 1"
    by (rule small_old_size_pos[OF c])
  from h have "obj \<noteq> 0" "object_type_decode s obj = Some (CLASS_SMALL, off)" by simp_all
  from realloc_shrink[OF this] pos show "realloc obj 0 s = Some (Inr (obj, s))" by simp
next
  fix sz p s1
  assume h: "sz \<noteq> 0 \<and> \<not> sz < word_of_nat SMALL_ALLOCATION_LIMIT \<and> unmapped_below_brk s
        \<and> malloc sz s = Some (p, s1) \<and> p \<noteq> 0"
  then have "malloc sz s = Some (large_alloc sz s)" by (simp add: malloc_def)
  with h have la: "large_alloc sz s = (p, s1)" and p: "p \<noteq> 0" and u: "unmapped_below_brk s"
    by simp_all
  note r = large_alloc_result[OF la p u]
  show d: "object_type_decode s1 p = Some (CLASS_LARGE, 0)" by (rule r(3))
  show n: "GET_LARGER_ALLOC_SZ s1 p \<noteq> 0" by (rule r(2))
  then have "0 < GET_LARGER_ALLOC_SZ s1 p" by (simp add: word_greater_zero_iff)
  with realloc_shrink[OF p d] show "realloc p 0 s1 = Some (Inr (p, s1))"
    by (simp add: CLASS_LARGE_def CLASS_SMALL_def)
  fix s2
  assume f: "(\<forall>a. a - (p - 16) < 16 \<longrightarrow> mem s2 a = mem s1 a) \<and> \<not> unmapped s2 (p - 1)"
  then have c: "\<forall>a. a - (p - 16) < 16 \<longrightarrow> mem s2 a = mem s1 a" and nu: "\<not> unmapped s2 (p - 1)"
    by simp_all
  have e: "p - 16 + 15 = p - 1" by simp
  have sz2: "GET_LARGER_ALLOC_SZ s2 p = GET_LARGER_ALLOC_SZ s1 p"
    unfolding GET_LARGER_ALLOC_SZ_def LARGE_HEADER_SIZE_def using load64_cong(1)[OF c] by simp
  have hb: "mem s2 (p - 1) = mem s1 (p - 1)" using load64_cong(2)[OF c] unfolding e .
  have "object_type_decode s2 p = Some (CLASS_LARGE, 0)"
    using d nu unfolding object_type_cases hb by (simp split: if_splits)
  moreover have "0 < GET_LARGER_ALLOC_SZ s2 p" unfolding sz2 using n by (simp add: word_greater_zero_iff)
  ultimately show "realloc p 0 s2 = Some (Inr (p, s2))"
    using realloc_shrink[OF p, of s2 CLASS_LARGE 0 0] by (simp add: CLASS_LARGE_def CLASS_SMALL_def)
next
  show "malloc 0 s = Some (0, s)" by (simp add: malloc_def)
qed

section \<open>Evaluating reallocation\<close>

lemma malloc15:
  "malloc_ptr 15 example_state = 0x10000030"
  "object_type_decode (malloc_state 15 example_state) 0x10000030 = Some (CLASS_SMALL, 0)"
  "object_size (pages (malloc_state 15 example_state) 0x10000000) = 16"
  by (simp_all add: run_defs header_defs decode_15 LOG2_vals)

theorem realloc_smaller_returns_same_witness:
  "realloc 0x10000030 14 (malloc_state 15 example_state)
     = Some (Inr (0x10000030, malloc_state 15 example_state))
   \<and> realloc 0x10000030 15 (malloc_state 15 example_state) =
       (case malloc 15 (malloc_state 15 example_state) of
          None \<Rightarrow> None
        | Some (ret, s1) \<Rightarrow>
            if ret = 0 then Some (Inr (0, s1))
            else (case free 0x10000030 (s1\<lparr>mem := memcpy (mem s1) ret 0x10000030 15\<rparr>) of
                    None \<Rightarrow> None
                  | Some (Inl a) \<Rightarrow> Some (Inl a)
                  | Some (Inr s2) \<Rightarrow> Some (Inr (ret, s2))))
   \<and> memcpy (mem (malloc_state 15 example_state)) 0x10000040 0x10000030 15 (0x10000040 + 2)
       = mem (malloc_state 15 example_state) (0x10000030 + 2)"
proof -
  let ?s = "malloc_state 15 example_state"
  have h1: "(0x10000030 :: 64 word) \<noteq> 0" by simp
  have h2: "object_type_decode ?s 0x10000030 = Some (CLASS_SMALL, 0)" by (rule malloc15)
  have h3: "(15 :: 64 word) = ucast (object_size (pages ?s (GET_PAGE_START 0x10000030 0))) - 1"
    by (simp add: page_start_example malloc15)
  have h4: "(14 :: 64 word) < 15" "(15 :: 64 word) \<le> 15" "(2 :: 64 word) < 15" by simp_all
  note t14 = realloc_smaller_returns_same[OF h1 h2 h3, of 14]
  note t15 = realloc_smaller_returns_same[OF h1 h2 h3, of 15]
  note a = t14[THEN conjunct1, THEN mp, OF h4(1)]
  note t15b = t15[THEN conjunct2, THEN mp, OF h4(2)]
  note b = t15b[THEN conjunct1]
  from t15b[THEN conjunct2]
  have c: "memcpy (mem ?s) 0x10000040 0x10000030 15 (0x10000040 + 2) = mem ?s (0x10000030 + 2)"
    using h4(3) by blast
  from a b c show ?thesis by (intro conjI)
qed

lemmas free_defs = free_def page_internal_free_def page_internal_free_sched_def STACK_PUSH_OBJECT_def
  STACK_POP_OBJECT_def ret_pageblock_def stack_insert_def stack_insert_atomic_def remove_node_dq_def
  large_free_def munmap_wrap_def GET_LARGER_ALLOC_START_def GET_LARGER_ALLOC_SZ_def LARGE_HEADER_SIZE_def
  realloc_def realloc_ptr_def realloc_state_def free_state_def user_write_def
  large_alloc_def header_write_large_def WRITE_LARGE_HEADER_SZ_def GET_PAGE_NUM_def HEADER_LARGE_def
  memcpy_def

theorem realloc_equal_size_counterexample:
  "malloc_ptr 15 example_state = 0x10000030
   \<and> ucast (object_size (pages (malloc_state 15 example_state) (GET_PAGE_START 0x10000030 0))) - 1
        = (15 :: 64 word)
   \<and> realloc_ptr 0x10000030 15 (malloc_state 15 example_state) = 0x10000040"
proof -
  have "realloc_ptr 0x10000030 15 (malloc_state 15 example_state) = 0x10000040"
    by (simp add: run_defs header_defs free_defs decode_15 LOG2_vals)
  then show ?thesis by (simp add: page_start_example malloc15)
qed

lemma malloc4096:
  "malloc_ptr 4096 example_state = 0x10000010"
  "object_type_decode (malloc_state 4096 example_state) 0x10000010 = Some (CLASS_LARGE, 0)"
  "GET_LARGER_ALLOC_SZ (malloc_state 4096 example_state) 0x10000010 = 2"
  "malloc 4096 example_state = Some (0x10000010, malloc_state 4096 example_state)"
  by (simp_all add: run_defs header_defs free_defs load64_def load32_def store64_def store32_def)

theorem realloc_zero_returns_same_witness:
  "realloc 0x10000030 0 (malloc_state 15 example_state)
     = Some (Inr (0x10000030, malloc_state 15 example_state))
   \<and> realloc 0x10000010 0 (malloc_state 4096 example_state)
     = Some (Inr (0x10000010, malloc_state 4096 example_state))
   \<and> GET_LARGER_ALLOC_SZ (malloc_state 4096 example_state) 0x10000010 \<noteq> 0
   \<and> malloc 0 example_state = Some (0, example_state)"
proof -
  let ?s = "malloc_state 15 example_state"
  let ?l = "malloc_state 4096 example_state"
  have c: "class_sizes ! 0 = 16" by (simp add: class_sizes_def)
  have "object_size (pages ?s (GET_PAGE_START 0x10000030 0)) = word_of_nat (class_sizes ! 0)"
    unfolding c by (simp add: page_start_example malloc15)
  then have "\<exists>c < 64. object_size (pages ?s (GET_PAGE_START 0x10000030 0)) = word_of_nat (class_sizes ! c)"
    by (intro exI[where x=0]) simp
  then have h1: "(0x10000030 :: 64 word) \<noteq> 0 \<and> object_type_decode ?s 0x10000030 = Some (CLASS_SMALL, 0)
        \<and> (\<exists>c < 64. object_size (pages ?s (GET_PAGE_START 0x10000030 0)) = word_of_nat (class_sizes ! c))"
    using malloc15(2) by simp
  have ub: "unmapped_below_brk example_state"
    by (simp add: unmapped_below_brk_def example_state_def init_state_def thread_data_struct_def)
  have h2: "(4096 :: 64 word) \<noteq> 0 \<and> \<not> (4096 :: 64 word) < word_of_nat SMALL_ALLOCATION_LIMIT
        \<and> unmapped_below_brk example_state
        \<and> malloc 4096 example_state = Some (0x10000010, ?l) \<and> (0x10000010 :: 64 word) \<noteq> 0"
    using ub malloc4096(4) by (simp add: SMALL_ALLOCATION_LIMIT_def PAGE_SZ_def PAGE_BITS_def)
  from realloc_zero_returns_same[of ?s] h1
  have a: "realloc 0x10000030 0 ?s = Some (Inr (0x10000030, ?s))" by blast
  from realloc_zero_returns_same[of example_state] h2
  have b: "realloc 0x10000010 0 ?l = Some (Inr (0x10000010, ?l))"
    and b': "GET_LARGER_ALLOC_SZ ?l 0x10000010 \<noteq> 0" by blast+
  from realloc_zero_returns_same[of example_state]
  have d: "malloc 0 example_state = Some (0, example_state)" by (elim conjE)
  from a b b' d show ?thesis by (intro conjI)
qed

text \<open>
  C1, at a failing input. In a fresh process \<open>malloc 4096\<close> takes the large path: two
  pages are mapped and the prefix stores the page count 2. The caller writes \<open>0xAB\<close> to
  the third byte of the payload. \<open>realloc\<close> to 5000 bytes reads the old size 2 (the page
  count, not a number of bytes), so it does not return the same pointer although the
  mapping holds 8176 payload bytes; it maps a new region, copies 2 bytes and unmaps the
  old one: the third byte of the new payload is 0, not \<open>0xAB\<close>.
\<close>

theorem realloc_large_reads_page_count:
  "malloc_ptr 4096 example_state = 0x10000010
   \<and> GET_LARGER_ALLOC_SZ (malloc_state 4096 example_state) 0x10000010 = 2
   \<and> mem (user_write 0x10000012 0xAB (malloc_state 4096 example_state)) 0x10000012 = 0xAB
   \<and> realloc_ptr 0x10000010 5000 (user_write 0x10000012 0xAB (malloc_state 4096 example_state))
        = 0x10002010
   \<and> mem (realloc_state 0x10000010 5000 (user_write 0x10000012 0xAB (malloc_state 4096 example_state)))
         0x10002012 = 0
   \<and> os_unmapped (realloc_state 0x10000010 5000
         (user_write 0x10000012 0xAB (malloc_state 4096 example_state))) = [(0x10000000, 0x2000)]"
proof -
  have "realloc_ptr 0x10000010 5000 (user_write 0x10000012 0xAB (malloc_state 4096 example_state))
        = 0x10002010"
    by (simp add: run_defs header_defs free_defs load64_def load32_def store64_def store32_def)
  moreover have "mem (realloc_state 0x10000010 5000 (user_write 0x10000012 0xAB (malloc_state 4096 example_state)))
         0x10002012 = 0"
    by (simp add: run_defs header_defs free_defs load64_def load32_def store64_def store32_def)
  moreover have "os_unmapped (realloc_state 0x10000010 5000
         (user_write 0x10000012 0xAB (malloc_state 4096 example_state))) = [(0x10000000, 0x2000)]"
    by (simp add: run_defs header_defs free_defs load64_def load32_def store64_def store32_def)
  ultimately show ?thesis by (simp add: malloc4096 user_write_def)
qed

section \<open>A second free of the same pointer\<close>






section \<open>Evaluating a second free\<close>






lemma double_free_double_allocation:
  "malloc_ptr 8 (free_state 0x10000030 (free_state 0x10000030 (malloc_state 8 example_state)))
     = 0x10000030
   \<and> malloc_ptr 8 (malloc_state 8
        (free_state 0x10000030 (free_state 0x10000030 (malloc_state 8 example_state))))
     = 0x10000030"
  by (simp add: run_defs header_defs free_defs decode_8 decode_15 LOG2_vals store32_def load32_def)

section \<open>The free path and the list of the class\<close>








lemma decode_607: "class_size_decode 607 = Some (34, 16)" by code_simp



end
